theory Spec2Isabelle
  imports Complex_Main "HOL-Library.Log_Nat"
begin

section \<open>Data model of the Nightscout display action\<close>

text \<open>
  JavaScript numbers are IEEE doubles. The readings, thresholds and timestamps that
  reach the action come from JSON and from \<^verbatim>\<open>Date.now()\<close> and are finite; they are
  values of type \<open>real\<close>. The unit conversion of the current reading and the rounding
  of the delta, whose results depend on how a quotient and a product round, are computed
  with \<open>fl\<close> below, the rounding of binary64. The remaining arithmetic (comparisons
  aside, which are exact on doubles) is taken exact: the coordinates of the graph, the
  conversion of samples and thresholds, the differences of timestamps. The two places
  where the source divides by a quantity that can be zero are modelled with \<open>jsnum\<close>,
  which adds the non-finite results of IEEE arithmetic.
\<close>

datatype unit_t = Mgdl | Mmol

text \<open>The type \<^verbatim>\<open>Settings\<close>, after the defaults have been merged in.\<close>

record Settings =
  nightscoutUrl :: "string option"
  token :: "string option"
  unit :: unit_t
  normalHigh :: real
  normalLow :: real
  urgentHigh :: real
  urgentLow :: real
  inRangeColor :: string
  normalColor :: string
  urgentColor :: string
  graphHours :: real

text \<open>
  The settings object as the host delivers it in an event payload: any key may be
  absent (a freshly placed action has no settings at all).
\<close>

record PayloadSettings =
  p_nightscoutUrl :: "string option"
  p_token :: "string option"
  p_unit :: "unit_t option"
  p_normalHigh :: "real option"
  p_normalLow :: "real option"
  p_urgentHigh :: "real option"
  p_urgentLow :: "real option"
  p_inRangeColor :: "string option"
  p_normalColor :: "string option"
  p_urgentColor :: "string option"
  p_graphHours :: "real option"

definition DEFAULT_SETTINGS :: Settings where
  "DEFAULT_SETTINGS =
     \<lparr> nightscoutUrl = None, token = None, unit = Mgdl,
       normalHigh = 180, normalLow = 70, urgentHigh = 250, urgentLow = 55,
       inRangeColor = ''#00FF00'', normalColor = ''#FFFF00'', urgentColor = ''#FF0000'',
       graphHours = 8 \<rparr>"

definition orDefault :: "'a option \<Rightarrow> 'a \<Rightarrow> 'a" where
  "orDefault v d = (case v of None \<Rightarrow> d | Some x \<Rightarrow> x)"

text \<open>\<^verbatim>\<open>{ ...this.DEFAULT_SETTINGS, ...settings }\<close>: a key of the payload wins.\<close>

definition mergeSettings :: "PayloadSettings \<Rightarrow> Settings" where
  "mergeSettings p =
     \<lparr> nightscoutUrl = p_nightscoutUrl p,
       token = p_token p,
       unit = orDefault (p_unit p) (unit DEFAULT_SETTINGS),
       normalHigh = orDefault (p_normalHigh p) (normalHigh DEFAULT_SETTINGS),
       normalLow = orDefault (p_normalLow p) (normalLow DEFAULT_SETTINGS),
       urgentHigh = orDefault (p_urgentHigh p) (urgentHigh DEFAULT_SETTINGS),
       urgentLow = orDefault (p_urgentLow p) (urgentLow DEFAULT_SETTINGS),
       inRangeColor = orDefault (p_inRangeColor p) (inRangeColor DEFAULT_SETTINGS),
       normalColor = orDefault (p_normalColor p) (normalColor DEFAULT_SETTINGS),
       urgentColor = orDefault (p_urgentColor p) (urgentColor DEFAULT_SETTINGS),
       graphHours = orDefault (p_graphHours p) (graphHours DEFAULT_SETTINGS) \<rparr>"

text \<open>A merged settings object handed on as a payload (every key present).\<close>

definition asPayload :: "Settings \<Rightarrow> PayloadSettings" where
  "asPayload s =
     \<lparr> p_nightscoutUrl = nightscoutUrl s, p_token = token s, p_unit = Some (unit s),
       p_normalHigh = Some (normalHigh s), p_normalLow = Some (normalLow s),
       p_urgentHigh = Some (urgentHigh s), p_urgentLow = Some (urgentLow s),
       p_inRangeColor = Some (inRangeColor s), p_normalColor = Some (normalColor s),
       p_urgentColor = Some (urgentColor s), p_graphHours = Some (graphHours s) \<rparr>"

text \<open>The type \<^verbatim>\<open>NightscoutResponse\<close>; every \<^verbatim>\<open>?\<close> field is an option.\<close>

record Bgnow =
  bgnow_last :: "real option"
  bgnow_mills :: "real option"

record Delta =
  delta_display :: "string option"
  delta_scaled :: "real option"

record Direction =
  direction_label :: "string option"

record Bucket =
  fromMills :: real
  toMills :: real

record NightscoutResponse =
  bgnow :: "Bgnow option"
  delta :: "Delta option"
  direction :: "Direction option"
  buckets :: "Bucket list option"

record NightscoutEntry =
  sgv :: real
  date :: real
  entry_direction :: "string option"

datatype DisplayMode = NUMBER | GRAPH

subsection \<open>JavaScript operators used by the renderers\<close>

text \<open>Truthiness of an optional number (\<^verbatim>\<open>undefined\<close> and \<^verbatim>\<open>0\<close> are falsy).\<close>

definition truthyNum :: "real option \<Rightarrow> bool" where
  "truthyNum v = (case v of None \<Rightarrow> False | Some x \<Rightarrow> x \<noteq> 0)"

text \<open>\<^verbatim>\<open>s || d\<close> on an optional string (\<^verbatim>\<open>undefined\<close> and \<^verbatim>\<open>""\<close> are falsy).\<close>

definition strOr :: "string option \<Rightarrow> string \<Rightarrow> string" where
  "strOr v d = (case v of None \<Rightarrow> d | Some x \<Rightarrow> if x = [] then d else x)"

text \<open>
  \<^verbatim>\<open>Math.round\<close> rounds its argument, a double, to the nearest integer, a tie towards
  \<open>+\<infinity>\<close>; the result is exact.
\<close>

definition mathRound :: "real \<Rightarrow> real" where
  "mathRound x = of_int \<lfloor>x + 1 / 2\<rfloor>"

subsection \<open>Rounding to binary64\<close>

text \<open>
  The result of \<^verbatim>\<open>/\<close> and \<^verbatim>\<open>*\<close> on doubles is the exact result rounded to the
  nearest double, a tie to the even significand. A double has 53 significant bits: the
  doubles from \<open>2^e\<close> up to \<open>2^(e+1)\<close> are \<open>2^(e-52)\<close> apart, and those below \<open>2^(-1022)\<close>
  (the subnormal range) are \<open>2^(-1074)\<close> apart. Overflow to infinity is not modelled.
  The unit conversion cannot overflow for a finite reading (the product is smaller than
  the reading); the product by 100 in the delta overflows only for a scaled delta beyond
  \<open>10^306\<close>.
\<close>

definition pow2 :: "int \<Rightarrow> real" where
  "pow2 e = (if e \<ge> 0 then 2 ^ nat e else 1 / 2 ^ nat (- e))"

text \<open>The binary exponent of a positive number: \<open>pow2 (binExp x) \<le> x < pow2 (binExp x + 1)\<close>.\<close>

definition binExp :: "real \<Rightarrow> int" where
  "binExp x =
     (if x \<ge> 1 then int (floorlog 2 (nat \<lfloor>x\<rfloor>)) - 1
      else - int (floorlog 2 (nat (\<lceil>1 / x\<rceil> - 1))))"

definition roundEven :: "real \<Rightarrow> int" where
  "roundEven y =
     (let f = \<lfloor>y\<rfloor>; d = y - of_int f
      in if d < 1 / 2 then f else if d > 1 / 2 then f + 1 else if even f then f else f + 1)"

definition fl :: "real \<Rightarrow> real" where
  "fl x =
     (if x = 0 then 0
      else let E = max (binExp \<bar>x\<bar> - 52) (- 1074)
           in of_int (roundEven (x / pow2 E)) * pow2 E)"

text \<open>\<^verbatim>\<open>Math.round((x / 18) * 10) / 10\<close> on doubles (lines 304 and 445).\<close>

definition toMmol :: "real \<Rightarrow> real" where
  "toMmol x = fl (mathRound (fl (fl (x / 18) * 10)) / 10)"

text \<open>Optional chaining: \<^verbatim>\<open>data.bgnow?.last\<close> and its siblings.\<close>

definition getLast :: "NightscoutResponse \<Rightarrow> real option" where
  "getLast data = (case bgnow data of None \<Rightarrow> None | Some b \<Rightarrow> bgnow_last b)"

definition getMills :: "NightscoutResponse \<Rightarrow> real option" where
  "getMills data = (case bgnow data of None \<Rightarrow> None | Some b \<Rightarrow> bgnow_mills b)"

definition getDisplay :: "NightscoutResponse \<Rightarrow> string option" where
  "getDisplay data = (case delta data of None \<Rightarrow> None | Some d \<Rightarrow> delta_display d)"

definition getScaled :: "NightscoutResponse \<Rightarrow> real option" where
  "getScaled data = (case delta data of None \<Rightarrow> None | Some d \<Rightarrow> delta_scaled d)"

definition getLabel :: "NightscoutResponse \<Rightarrow> string option" where
  "getLabel data = (case direction data of None \<Rightarrow> None | Some d \<Rightarrow> direction_label d)"

text \<open>
  The table \<^verbatim>\<open>DIRECTION_ARROWS\<close>. The glyphs lie outside ASCII and are written by
  their code points.
\<close>

definition DIRECTION_ARROWS :: "string \<Rightarrow> string option" where
  "DIRECTION_ARROWS =
     map_of [(''DoubleUp'', ''U+21C8''), (''SingleUp'', ''U+2191''),
             (''FortyFiveUp'', ''U+2197''), (''Flat'', ''U+2192''),
             (''FortyFiveDown'', ''U+2198''), (''SingleDown'', ''U+2193''),
             (''DoubleDown'', ''U+21CA''), (''NOT COMPUTABLE'', ''?''),
             (''RATE OUT OF RANGE'', ''U+26A0'')]"

text \<open>
  The table is a plain object, so indexing it with a key of \<^verbatim>\<open>Object.prototype\<close> finds
  the inherited value, which is truthy: a built-in function, drawn as its source text,
  or for \<^verbatim>\<open>__proto__\<close> the prototype object itself.
\<close>

definition inheritedKeys :: "string list" where
  "inheritedKeys =
     [''__defineGetter__'', ''__defineSetter__'', ''hasOwnProperty'', ''__lookupGetter__'',
      ''__lookupSetter__'', ''isPrototypeOf'', ''propertyIsEnumerable'', ''toString'',
      ''valueOf'', ''toLocaleString'']"

definition inheritedText :: "string \<Rightarrow> string option" where
  "inheritedText k =
     (if k = ''constructor'' then Some ''function Object() { [native code] }''
      else if k = ''__proto__'' then Some ''[object Object]''
      else if k \<in> set inheritedKeys then Some (''function '' @ k @ ''() { [native code] }'')
      else None)"

text \<open>\<^verbatim>\<open>DIRECTION_ARROWS[directionText]\<close>, own keys first.\<close>

definition lookupArrow :: "string \<Rightarrow> string option" where
  "lookupArrow k = (case DIRECTION_ARROWS k of Some a \<Rightarrow> Some a | None \<Rightarrow> inheritedText k)"

definition arrowOf :: "NightscoutResponse \<Rightarrow> string" where
  "arrowOf data =
     (let directionText = strOr (getLabel data) ''Flat''
      in strOr (lookupArrow directionText) directionText)"

text \<open>
  A template literal is a list of fragments: literal text, and numbers whose decimal
  rendering is left to the host language.
\<close>

datatype frag = Lit string | Num real

text \<open>The delta text, shared word for word by both renderers.\<close>

definition deltaText :: "NightscoutResponse \<Rightarrow> Settings \<Rightarrow> frag list" where
  "deltaText data settings =
     (let delta0 = [Lit (strOr (getDisplay data) [])]
      in if unit settings = Mmol \<and> truthyNum (getScaled data) then
           (case getScaled data of
              None \<Rightarrow> delta0
            | Some scaled \<Rightarrow>
                let mmolDelta = fl (mathRound (fl (fl (scaled / 18) * 100)) / 100)
                in if mmolDelta \<ge> 0 then [Lit ''+'', Num mmolDelta] else [Num mmolDelta])
         else delta0)"

section \<open>Number renderer\<close>

record NumberView =
  nv_color :: string
  nv_reading :: real
  nv_arrow :: string
  nv_delta :: "frag list"
  nv_ago :: "frag list"

datatype NumberSvg = NoData | NumberImage NumberView

text \<open>The time-since-reading label; \<open>now\<close> is the value of \<^verbatim>\<open>Date.now()\<close>.\<close>

definition agoDisplay :: "NightscoutResponse \<Rightarrow> real \<Rightarrow> frag list" where
  "agoDisplay data now =
     (if truthyNum (getMills data) then
        (case getMills data of
           None \<Rightarrow> [Lit []]
         | Some mills \<Rightarrow>
             let minutesAgo = \<lfloor>(now - mills) / 60000\<rfloor>
             in if minutesAgo > 5 then [Num (of_int minutesAgo), Lit ''m ago'']
                else if minutesAgo > 0 then replicate (nat minutesAgo) (Lit ''U+2013'')
                else [Lit ''now''])
      else [Lit []])"

definition renderNumber :: "NightscoutResponse \<Rightarrow> Settings \<Rightarrow> real \<Rightarrow> NumberSvg" where
  "renderNumber data settings now =
     (case getLast data of
        None \<Rightarrow> NoData
      | Some last0 \<Rightarrow>
          if last0 = 0 then NoData
          else
            let last1 = (if unit settings = Mmol then toMmol last0 else last0);
                color = (if last1 \<ge> urgentHigh settings \<or> last1 \<le> urgentLow settings
                         then urgentColor settings
                         else if last1 \<ge> normalHigh settings \<or> last1 \<le> normalLow settings
                         then normalColor settings
                         else inRangeColor settings)
            in NumberImage
                 \<lparr> nv_color = color, nv_reading = last1, nv_arrow = arrowOf data,
                   nv_delta = deltaText data settings, nv_ago = agoDisplay data now \<rparr>)"

text \<open>Reading the two holes of the template that the claims speak about.\<close>

definition numberColor :: "NumberSvg \<Rightarrow> string option" where
  "numberColor svg = (case svg of NoData \<Rightarrow> None | NumberImage v \<Rightarrow> Some (nv_color v))"

definition numberReading :: "NumberSvg \<Rightarrow> real option" where
  "numberReading svg = (case svg of NoData \<Rightarrow> None | NumberImage v \<Rightarrow> Some (nv_reading v))"

section \<open>Graph renderer\<close>

text \<open>
  The result of a JavaScript division whose divisor may be zero: a finite number,
  an infinity, or NaN. Signed zeros are not distinguished; the two divisors concerned
  (\<^verbatim>\<open>values.length - 1\<close> and \<^verbatim>\<open>range + 2 * padding\<close>) are never negative zero.
\<close>

datatype jsnum = Fin real | PosInf | NegInf | NaN

fun jneg :: "jsnum \<Rightarrow> jsnum" where
  "jneg (Fin a) = Fin (- a)"
| "jneg PosInf = NegInf"
| "jneg NegInf = PosInf"
| "jneg NaN = NaN"

fun jadd :: "jsnum \<Rightarrow> jsnum \<Rightarrow> jsnum" where
  "jadd (Fin a) (Fin b) = Fin (a + b)"
| "jadd NaN _ = NaN"
| "jadd _ NaN = NaN"
| "jadd PosInf NegInf = NaN"
| "jadd NegInf PosInf = NaN"
| "jadd PosInf _ = PosInf"
| "jadd _ PosInf = PosInf"
| "jadd NegInf _ = NegInf"
| "jadd _ NegInf = NegInf"

definition jsub :: "jsnum \<Rightarrow> jsnum \<Rightarrow> jsnum" where
  "jsub a b = jadd a (jneg b)"

definition signedInf :: "real \<Rightarrow> jsnum" where
  "signedInf a = (if a = 0 then NaN else if a > 0 then PosInf else NegInf)"

fun jmul :: "jsnum \<Rightarrow> jsnum \<Rightarrow> jsnum" where
  "jmul (Fin a) (Fin b) = Fin (a * b)"
| "jmul NaN _ = NaN"
| "jmul _ NaN = NaN"
| "jmul (Fin a) PosInf = signedInf a"
| "jmul (Fin a) NegInf = signedInf (- a)"
| "jmul PosInf (Fin b) = signedInf b"
| "jmul NegInf (Fin b) = signedInf (- b)"
| "jmul PosInf PosInf = PosInf"
| "jmul NegInf NegInf = PosInf"
| "jmul PosInf NegInf = NegInf"
| "jmul NegInf PosInf = NegInf"

fun jdiv :: "jsnum \<Rightarrow> jsnum \<Rightarrow> jsnum" where
  "jdiv (Fin a) (Fin b) = (if b = 0 then signedInf a else Fin (a / b))"
| "jdiv NaN _ = NaN"
| "jdiv _ NaN = NaN"
| "jdiv (Fin a) PosInf = Fin 0"
| "jdiv (Fin a) NegInf = Fin 0"
| "jdiv PosInf (Fin b) = (if b \<ge> 0 then PosInf else NegInf)"
| "jdiv NegInf (Fin b) = (if b \<ge> 0 then NegInf else PosInf)"
| "jdiv PosInf PosInf = NaN"
| "jdiv PosInf NegInf = NaN"
| "jdiv NegInf PosInf = NaN"
| "jdiv NegInf NegInf = NaN"

definition isFinite :: "jsnum \<Rightarrow> bool" where
  "isFinite x = (case x of Fin _ \<Rightarrow> True | _ \<Rightarrow> False)"

datatype PathCmd = MoveTo jsnum jsnum | LineTo jsnum jsnum

record Circle =
  cx :: jsnum
  cy :: jsnum
  radius :: real
  fill :: string
  outlined :: bool

record GraphView =
  gv_gradients :: "string list"
  gv_gridY :: "jsnum list"
  gv_zones :: "(jsnum \<times> jsnum) list"
  gv_thresholdLines :: "(jsnum \<times> string) list"
  gv_labels :: "real list"
  gv_pathPoints :: "PathCmd list"
  gv_circles :: "Circle list"
  gv_headerText :: "frag list"
  gv_headerArrow :: string
  gv_currentColor :: string
  gv_timeRangeLabel :: "frag list"

datatype GraphSvg = NoHistory | GraphImage GraphView

definition WIDTH :: real where "WIDTH = 144"
definition HEIGHT :: real where "HEIGHT = 144"

definition graphTop :: real where "graphTop = 28"
definition graphBottom :: real where "graphBottom = HEIGHT - 18"
definition graphLeft :: real where "graphLeft = 28"
definition graphRight :: real where "graphRight = WIDTH - 12"
definition graphHeight :: real where "graphHeight = graphBottom - graphTop"
definition graphWidth :: real where "graphWidth = graphRight - graphLeft"

text \<open>The closure \<^verbatim>\<open>getY\<close>, with the three locals it captures as parameters
  (\<open>rng\<close> is the local \<^verbatim>\<open>range\<close>).\<close>

definition getY :: "real \<Rightarrow> real \<Rightarrow> real \<Rightarrow> real \<Rightarrow> jsnum" where
  "getY minValue padding rng v =
     jsub (Fin graphBottom)
       (jmul (jdiv (Fin (v - (minValue - padding))) (Fin (rng + 2 * padding)))
             (Fin graphHeight))"

text \<open>The x coordinate of the sample at \<open>index\<close> among \<open>n\<close> samples.\<close>

definition getX :: "nat \<Rightarrow> nat \<Rightarrow> jsnum" where
  "getX n index =
     jadd (Fin graphLeft)
       (jmul (jdiv (Fin (real index)) (Fin (real_of_int (int n - 1)))) (Fin graphWidth))"

text \<open>The colour of the marker of one converted sample.\<close>

definition circleColor :: "Settings \<Rightarrow> real \<Rightarrow> string" where
  "circleColor settings v =
     (let normalHigh' = (if unit settings = Mmol then normalHigh settings / 18 else normalHigh settings);
          normalLow' = (if unit settings = Mmol then normalLow settings / 18 else normalLow settings);
          urgentHigh' = (if unit settings = Mmol then urgentHigh settings / 18 else urgentHigh settings);
          urgentLow' = (if unit settings = Mmol then urgentLow settings / 18 else urgentLow settings)
      in if v \<ge> urgentHigh' \<or> v \<le> urgentLow' then urgentColor settings
         else if v \<ge> normalHigh' \<or> v \<le> normalLow' then normalColor settings
         else inRangeColor settings)"

definition renderGraph ::
  "NightscoutResponse \<Rightarrow> NightscoutEntry list \<Rightarrow> Settings \<Rightarrow> GraphSvg" where
  "renderGraph data entries settings =
     (if length entries = 0 then NoHistory
      else
        let sortedEntries = sort_key date entries;
            values = map (\<lambda>e. if unit settings = Mmol then sgv e / 18 else sgv e) sortedEntries;
            maxThreshold = (if unit settings = Mmol then urgentHigh settings / 18 else urgentHigh settings);
            minThreshold = (if unit settings = Mmol then urgentLow settings / 18 else urgentLow settings);
            maxValue = foldr max values maxThreshold;
            minValue = foldr min values minThreshold;
            rng = maxValue - minValue;
            padding = rng * (15 / 100);
            normalHigh' = (if unit settings = Mmol then normalHigh settings / 18 else normalHigh settings);
            normalLow' = (if unit settings = Mmol then normalLow settings / 18 else normalLow settings);
            urgentHigh' = (if unit settings = Mmol then urgentHigh settings / 18 else urgentHigh settings);
            urgentLow' = (if unit settings = Mmol then urgentLow settings / 18 else urgentLow settings);
            Y = getY minValue padding rng;
            n = length values;
            indexed = zip values [0..<n];
            pathPoints = map (\<lambda>(v, index).
                if index = 0 then MoveTo (getX n index) (Y v) else LineTo (getX n index) (Y v)) indexed;
            circles = map (\<lambda>(v, index).
                \<lparr> cx = getX n index, cy = Y v,
                  radius = (if int index = int n - 1 then 35 / 10 else 18 / 10),
                  fill = circleColor settings v,
                  outlined = (int index = int n - 1) \<rparr>) indexed;
            normalHighY = Y normalHigh';
            normalLowY = Y normalLow';
            urgentHighY = Y urgentHigh';
            urgentLowY = Y urgentLow';
            maxLabel = mathRound (maxValue + padding);
            minLabel = mathRound (minValue - padding);
            midLabel = mathRound ((maxLabel + minLabel) / 2);
            currentValue0 = getLast data;
            currentValue = (if truthyNum currentValue0 \<and> unit settings = Mmol
                            then map_option toMmol currentValue0
                            else currentValue0);
            headerText = (if truthyNum currentValue0
                          then (case currentValue of
                                  None \<Rightarrow> []
                                | Some c \<Rightarrow> [Num c, Lit '' ''] @ deltaText data settings)
                          else []);
            headerArrow = (if truthyNum currentValue0 then arrowOf data else []);
            currentColor =
              (case currentValue of
                 None \<Rightarrow> inRangeColor settings
               | Some val \<Rightarrow>
                   if val = 0 then inRangeColor settings
                   else if val \<ge> urgentHigh' \<or> val \<le> urgentLow' then urgentColor settings
                   else if val \<ge> normalHigh' \<or> val \<le> normalLow' then normalColor settings
                   else inRangeColor settings)
        in GraphImage
             \<lparr> gv_gradients = [urgentColor settings, normalColor settings, inRangeColor settings],
               gv_gridY = [Y maxLabel, Y midLabel, Y minLabel],
               gv_zones =
                 [(Fin graphTop, jsub urgentHighY (Fin graphTop)),
                  (urgentHighY, jsub normalHighY urgentHighY),
                  (normalHighY, jsub normalLowY normalHighY),
                  (normalLowY, jsub urgentLowY normalLowY),
                  (urgentLowY, jsub (Fin graphBottom) urgentLowY)],
               gv_thresholdLines =
                 [(urgentHighY, urgentColor settings), (normalHighY, normalColor settings),
                  (normalLowY, normalColor settings), (urgentLowY, urgentColor settings)],
               gv_labels = [maxLabel, midLabel, minLabel],
               gv_pathPoints = pathPoints,
               gv_circles = circles,
               gv_headerText = headerText,
               gv_headerArrow = headerArrow,
               gv_currentColor = currentColor,
               gv_timeRangeLabel = [Num (graphHours settings), Lit ''h''] \<rparr>)"

definition graphCircles :: "GraphSvg \<Rightarrow> Circle list" where
  "graphCircles svg = (case svg of NoHistory \<Rightarrow> [] | GraphImage v \<Rightarrow> gv_circles v)"

definition graphPath :: "GraphSvg \<Rightarrow> PathCmd list" where
  "graphPath svg = (case svg of NoHistory \<Rightarrow> [] | GraphImage v \<Rightarrow> gv_pathPoints v)"

definition graphHeader :: "GraphSvg \<Rightarrow> (frag list \<times> string \<times> string) option" where
  "graphHeader svg =
     (case svg of NoHistory \<Rightarrow> None
      | GraphImage v \<Rightarrow> Some (gv_headerText v, gv_headerArrow v, gv_currentColor v))"

section \<open>Instance registry, timers and host effects\<close>

text \<open>
  A timer handle is a number that is never reused. The pending timers of the process
  are a list of handles with the callback and delay given to \<^verbatim>\<open>setTimeout\<close>; a timer
  leaves the list when it fires or is cleared.
\<close>

type_synonym handle = nat

datatype Callback =
    CallFetchAndRender string PayloadSettings
  | CallRender string PayloadSettings

record Timer =
  tm_callback :: Callback
  tm_delay :: real

record Instance =
  displayMode :: DisplayMode
  keyDownTime :: "real option"
  fetchTimeout :: "handle option"
  renderTimeout :: "handle option"
  lastResponse :: "NightscoutResponse option"
  lastEntries :: "NightscoutEntry list option"

datatype Endpoint = PropertiesEndpoint | EntriesEndpoint int

datatype Image = NumberSvgImage NumberSvg | GraphSvgImage GraphSvg

text \<open>
  What the action does to the outside: an HTTP GET (for which instance, base URL,
  endpoint, and the secret whose SHA-1 digest is sent, if any), \<^verbatim>\<open>setImage\<close> and
  \<^verbatim>\<open>showAlert\<close>. Logging is left out.
\<close>

datatype Effect =
    HttpGet string string Endpoint "string option"
  | SetImage string Image
  | ShowAlert string

record World =
  instances :: "string \<rightharpoonup> Instance"
  timers :: "(handle \<times> Timer) list"
  nextHandle :: handle
  effects :: "Effect list"

text \<open>
  What the outside answers during one handler: whether \<^verbatim>\<open>new URL\<close> accepts the
  configured URL, how each of the two requests ends, and the clock readings.
  A request is rejected (transport error) or resolves to a status and a body that
  parses as JSON or does not.
\<close>

datatype 'a FetchOutcome = Rejected | Resolved nat "'a option"

definition ok :: "nat \<Rightarrow> bool" where
  "ok status = (200 \<le> status \<and> status \<le> 299)"

record Env =
  urlParses :: bool
  primary :: "NightscoutResponse FetchOutcome"
  history :: "NightscoutEntry list FetchOutcome"
  renderNow :: real
  scheduleNow :: real

definition LONG_PRESS_DURATION :: real where "LONG_PRESS_DURATION = 500"

definition emit :: "Effect \<Rightarrow> World \<Rightarrow> World" where
  "emit e w = w\<lparr>effects := effects w @ [e]\<rparr>"

text \<open>\<^verbatim>\<open>if (handle) clearTimeout(handle)\<close>.\<close>

definition clearTimeout :: "handle option \<Rightarrow> World \<Rightarrow> World" where
  "clearTimeout ho w =
     (case ho of None \<Rightarrow> w
      | Some h \<Rightarrow> w\<lparr>timers := filter (\<lambda>p. fst p \<noteq> h) (timers w)\<rparr>)"

definition setTimeout :: "Callback \<Rightarrow> real \<Rightarrow> World \<Rightarrow> handle \<times> World" where
  "setTimeout cb ms w =
     (nextHandle w,
      w\<lparr>timers := timers w @ [(nextHandle w, \<lparr>tm_callback = cb, tm_delay = ms\<rparr>)],
        nextHandle := Suc (nextHandle w)\<rparr>)"

text \<open>An assignment to a field of the instance object registered under \<open>contextId\<close>.\<close>

definition updInstance :: "string \<Rightarrow> (Instance \<Rightarrow> Instance) \<Rightarrow> World \<Rightarrow> World" where
  "updInstance contextId f w =
     (case instances w contextId of None \<Rightarrow> w
      | Some i \<Rightarrow> w\<lparr>instances := (instances w)(contextId \<mapsto> f i)\<rparr>)"

subsection \<open>render\<close>

text \<open>Lines 269 to 275: the dispatch on the display mode.\<close>

definition svgContent :: "Instance \<Rightarrow> NightscoutResponse \<Rightarrow> Settings \<Rightarrow> real \<Rightarrow> Image" where
  "svgContent instance data mergedSettings now =
     (if displayMode instance = NUMBER
      then NumberSvgImage (renderNumber data mergedSettings now)
      else GraphSvgImage (renderGraph data (orDefault (lastEntries instance) []) mergedSettings))"

definition render :: "string \<Rightarrow> PayloadSettings \<Rightarrow> real \<Rightarrow> World \<Rightarrow> World" where
  "render contextId settings now w =
     (case instances w contextId of None \<Rightarrow> w
      | Some instance \<Rightarrow>
          (case lastResponse instance of None \<Rightarrow> w
           | Some data \<Rightarrow>
               let mergedSettings = mergeSettings settings;
                   w1 = emit (SetImage contextId (svgContent instance data mergedSettings now)) w;
                   w2 = clearTimeout (renderTimeout instance) w1;
                   (h, w3) = setTimeout (CallRender contextId settings) 60000 w2
               in updInstance contextId (\<lambda>i. i\<lparr>renderTimeout := Some h\<rparr>) w3))"

subsection \<open>fetchAndRender\<close>

text \<open>\<^verbatim>\<open>data.buckets?.[0]\<close>.\<close>

definition firstBucket :: "NightscoutResponse \<Rightarrow> Bucket option" where
  "firstBucket data =
     (case buckets data of None \<Rightarrow> None
      | Some bs \<Rightarrow> (case bs of [] \<Rightarrow> None | b # _ \<Rightarrow> Some b))"

text \<open>Lines 238 and 239: the estimated arrival of the next reading.\<close>

definition nextRead :: "Bucket \<Rightarrow> real \<Rightarrow> real" where
  "nextRead bucket mills =
     (let lastDiff = toMills bucket - fromMills bucket
      in mills + lastDiff + 15000)"

text \<open>Lines 235 to 244: the delay until the next fetch.\<close>

definition nextSleepMs :: "NightscoutResponse \<Rightarrow> real \<Rightarrow> real" where
  "nextSleepMs data now =
     (case firstBucket data of
        None \<Rightarrow> 30000
      | Some bucket \<Rightarrow>
          (case getMills data of
             None \<Rightarrow> 30000
           | Some mills \<Rightarrow>
               if mills = 0 then 30000
               else if nextRead bucket mills > now \<and> nextRead bucket mills - now < 300000
               then min (nextRead bucket mills - now) 30000
               else 30000))"

text \<open>The \<^verbatim>\<open>catch\<close> block of \<^verbatim>\<open>fetchAndRender\<close>.\<close>

definition onFetchError :: "string \<Rightarrow> PayloadSettings \<Rightarrow> World \<Rightarrow> World" where
  "onFetchError contextId settings w =
     (let w1 = emit (ShowAlert contextId) w;
          (h, w2) = setTimeout (CallFetchAndRender contextId settings) 60000 w1
      in updInstance contextId (\<lambda>i. i\<lparr>fetchTimeout := Some h\<rparr>) w2)"

text \<open>Lines 231 to 247: render, then schedule the next fetch.\<close>

definition renderAndSchedule ::
  "string \<Rightarrow> PayloadSettings \<Rightarrow> Settings \<Rightarrow> NightscoutResponse \<Rightarrow> Env \<Rightarrow> World \<Rightarrow> World" where
  "renderAndSchedule contextId settings mergedSettings data env w =
     (let w1 = render contextId (asPayload mergedSettings) (renderNow env) w;
          sleepMs = nextSleepMs data (scheduleNow env);
          (h, w2) = setTimeout (CallFetchAndRender contextId settings) sleepMs w1
      in updInstance contextId (\<lambda>i. i\<lparr>fetchTimeout := Some h\<rparr>) w2)"

definition secretOf :: "Settings \<Rightarrow> string option" where
  "secretOf s = (case token s of None \<Rightarrow> None | Some t \<Rightarrow> if t = [] then None else Some t)"

text \<open>
  \<open>fetchAndRender\<close> is an async function: it runs up to its first \<^verbatim>\<open>await\<close> and is
  resumed later, and other handlers run in between. With no secret configured the first
  \<^verbatim>\<open>await\<close> is that of the primary request (line 211). The function is given in two
  parts: \<open>fetchAndRenderStart\<close> is the part before that \<^verbatim>\<open>await\<close> (lines 179 to 211),
  which either returns, or fails in \<^verbatim>\<open>new URL\<close> and runs the \<^verbatim>\<open>catch\<close> block, or is
  suspended with the request issued; \<open>fetchAndRenderResume\<close> is the part after it (lines
  213 to 255), run when the request has settled. The later awaits are passed without
  another handler running in between. The resumed part assigns to the instance object
  that the call looked up at its start; here it is the one registered under the identity,
  which is the same object unless the identity has disappeared or appeared anew in
  between.
\<close>

datatype Suspended = Returned World | AwaitingPrimary string World

definition fetchAndRenderStart :: "string \<Rightarrow> PayloadSettings \<Rightarrow> Env \<Rightarrow> World \<Rightarrow> Suspended" where
  "fetchAndRenderStart contextId settings env w =
     (case instances w contextId of None \<Rightarrow> Returned w
      | Some instance \<Rightarrow>
          let w1 = clearTimeout (renderTimeout instance) (clearTimeout (fetchTimeout instance) w);
              mergedSettings = mergeSettings settings
          in (case nightscoutUrl mergedSettings of
                None \<Rightarrow> Returned w1
              | Some url \<Rightarrow>
                  if url = [] then Returned w1
                  else if \<not> urlParses env then Returned (onFetchError contextId settings w1)
                  else AwaitingPrimary url
                         (emit (HttpGet contextId url PropertiesEndpoint (secretOf mergedSettings)) w1)))"

definition fetchAndRenderResume ::
  "string \<Rightarrow> PayloadSettings \<Rightarrow> string \<Rightarrow> Env \<Rightarrow> World \<Rightarrow> World" where
  "fetchAndRenderResume contextId settings url env w2 =
     (let mergedSettings = mergeSettings settings
      in (case primary env of
            Rejected \<Rightarrow> onFetchError contextId settings w2
          | Resolved status body \<Rightarrow>
              if \<not> ok status then onFetchError contextId settings w2
              else
                (case body of
                   None \<Rightarrow> onFetchError contextId settings w2
                 | Some data \<Rightarrow>
                     let w3 = updInstance contextId (\<lambda>i. i\<lparr>lastResponse := Some data\<rparr>) w2;
                         entriesCount = \<lceil>(graphHours mergedSettings * 60) / 5\<rceil>;
                         w4 = emit (HttpGet contextId url (EntriesEndpoint entriesCount)
                                      (secretOf mergedSettings)) w3
                     in (case history env of
                           Rejected \<Rightarrow> onFetchError contextId settings w4
                         | Resolved entriesStatus entriesBody \<Rightarrow>
                             if ok entriesStatus then
                               (case entriesBody of
                                  None \<Rightarrow> onFetchError contextId settings w4
                                | Some es \<Rightarrow>
                                    renderAndSchedule contextId settings mergedSettings data env
                                      (updInstance contextId (\<lambda>i. i\<lparr>lastEntries := Some es\<rparr>) w4))
                             else renderAndSchedule contextId settings mergedSettings data env w4))))"

text \<open>The whole call, when nothing else runs while it is suspended.\<close>

definition fetchAndRender ::
  "string \<Rightarrow> PayloadSettings \<Rightarrow> bool \<Rightarrow> Env \<Rightarrow> World \<Rightarrow> World" where
  "fetchAndRender contextId settings forceRefresh env w =
     (case fetchAndRenderStart contextId settings env w of
        Returned w' \<Rightarrow> w'
      | AwaitingPrimary url w' \<Rightarrow> fetchAndRenderResume contextId settings url env w')"

text \<open>
  Two calls for the same identity that overlap: the second starts while the first is
  suspended at its request, then the first is resumed, then the second.
\<close>

definition isSuspended :: "Suspended \<Rightarrow> bool" where
  "isSuspended x = (case x of Returned _ \<Rightarrow> False | AwaitingPrimary _ _ \<Rightarrow> True)"

definition overlapped ::
  "string \<Rightarrow> PayloadSettings \<Rightarrow> Env \<Rightarrow> PayloadSettings \<Rightarrow> Env \<Rightarrow> World \<Rightarrow> World" where
  "overlapped contextId settingsA envA settingsB envB w =
     (case fetchAndRenderStart contextId settingsA envA w of
        Returned wA \<Rightarrow> fetchAndRender contextId settingsB False envB wA
      | AwaitingPrimary urlA wA \<Rightarrow>
          (case fetchAndRenderStart contextId settingsB envB wA of
             Returned wB \<Rightarrow> fetchAndRenderResume contextId settingsA urlA envA wB
           | AwaitingPrimary urlB wB \<Rightarrow>
               fetchAndRenderResume contextId settingsB urlB envB
                 (fetchAndRenderResume contextId settingsA urlA envA wB)))"

subsection \<open>Event handlers\<close>

definition freshInstance :: Instance where
  "freshInstance =
     \<lparr> displayMode = NUMBER, keyDownTime = None, fetchTimeout = None, renderTimeout = None,
       lastResponse = None, lastEntries = None \<rparr>"

definition onWillAppear :: "string \<Rightarrow> PayloadSettings \<Rightarrow> Env \<Rightarrow> World \<Rightarrow> World" where
  "onWillAppear contextId settings env w =
     fetchAndRender contextId settings False env
       (w\<lparr>instances := (instances w)(contextId \<mapsto> freshInstance)\<rparr>)"

definition onWillDisappear :: "string \<Rightarrow> World \<Rightarrow> World" where
  "onWillDisappear contextId w =
     (case instances w contextId of None \<Rightarrow> w
      | Some instance \<Rightarrow>
          let w1 = clearTimeout (renderTimeout instance) (clearTimeout (fetchTimeout instance) w)
          in w1\<lparr>instances := (instances w1)(contextId := None)\<rparr>)"

definition onKeyDown :: "string \<Rightarrow> real \<Rightarrow> World \<Rightarrow> World" where
  "onKeyDown contextId now w = updInstance contextId (\<lambda>i. i\<lparr>keyDownTime := Some now\<rparr>) w"

definition toggleMode :: "DisplayMode \<Rightarrow> DisplayMode" where
  "toggleMode m = (if m = NUMBER then GRAPH else NUMBER)"

definition onKeyUp :: "string \<Rightarrow> PayloadSettings \<Rightarrow> real \<Rightarrow> Env \<Rightarrow> World \<Rightarrow> World" where
  "onKeyUp contextId settings now env w =
     (case instances w contextId of None \<Rightarrow> w
      | Some instance \<Rightarrow>
          (case keyDownTime instance of None \<Rightarrow> w
           | Some t \<Rightarrow>
               if t = 0 then w
               else
                 let pressDuration = now - t;
                     w1 = updInstance contextId (\<lambda>i. i\<lparr>keyDownTime := None\<rparr>) w
                 in if pressDuration \<ge> LONG_PRESS_DURATION
                    then fetchAndRender contextId settings True env w1
                    else render contextId settings (renderNow env)
                           (updInstance contextId
                              (\<lambda>i. i\<lparr>displayMode := toggleMode (displayMode i)\<rparr>) w1)))"

definition onDidReceiveSettings :: "string \<Rightarrow> PayloadSettings \<Rightarrow> Env \<Rightarrow> World \<Rightarrow> World" where
  "onDidReceiveSettings contextId settings env w = fetchAndRender contextId settings False env w"

text \<open>A pending timer fires: it leaves the pending list and its callback runs.\<close>

definition fireTimer :: "handle \<Rightarrow> Env \<Rightarrow> World \<Rightarrow> World" where
  "fireTimer h env w =
     (case map_of (timers w) h of None \<Rightarrow> w
      | Some t \<Rightarrow>
          let w1 = w\<lparr>timers := filter (\<lambda>p. fst p \<noteq> h) (timers w)\<rparr>
          in (case tm_callback t of
                CallFetchAndRender c s \<Rightarrow> fetchAndRender c s False env w1
              | CallRender c s \<Rightarrow> render c s (renderNow env) w1))"

text \<open>
  An event whose handler runs to completion before the next event is handled. Handlers
  that overlap are composed from the two parts of \<open>fetchAndRender\<close>, as in \<open>overlapped\<close>.
\<close>

datatype Event =
    WillAppear string PayloadSettings Env
  | WillDisappear string
  | KeyDown string real
  | KeyUp string PayloadSettings real Env
  | DidReceiveSettings string PayloadSettings Env
  | TimerFires handle Env

fun step :: "Event \<Rightarrow> World \<Rightarrow> World" where
  "step (WillAppear c s env) w = onWillAppear c s env w"
| "step (WillDisappear c) w = onWillDisappear c w"
| "step (KeyDown c now) w = onKeyDown c now w"
| "step (KeyUp c s now env) w = onKeyUp c s now env w"
| "step (DidReceiveSettings c s env) w = onDidReceiveSettings c s env w"
| "step (TimerFires h env) w = fireTimer h env w"

fun run :: "Event list \<Rightarrow> World \<Rightarrow> World" where
  "run [] w = w"
| "run (e # es) w = run es (step e w)"

definition initialWorld :: World where
  "initialWorld = \<lparr> instances = Map.empty, timers = [], nextHandle = 0, effects = [] \<rparr>"

section \<open>Notions used to state the properties\<close>

text \<open>The primary request fails: transport error, a status that is not OK, or a body
  that does not parse.\<close>

definition primaryFails :: "Env \<Rightarrow> bool" where
  "primaryFails env =
     (case primary env of Rejected \<Rightarrow> True
      | Resolved status body \<Rightarrow> \<not> ok status \<or> body = None)"

text \<open>The world once both timers of an instance have been cleared (lines 183 and 184).\<close>

definition cleared :: "Instance \<Rightarrow> World \<Rightarrow> World" where
  "cleared instance w = clearTimeout (renderTimeout instance) (clearTimeout (fetchTimeout instance) w)"

text \<open>Both requests of a call succeed: the snapshot and the history are received and parse.\<close>

definition storedOk :: "Env \<Rightarrow> NightscoutResponse \<Rightarrow> NightscoutEntry list \<Rightarrow> bool" where
  "storedOk env data es =
     (urlParses env
      \<and> (case primary env of Rejected \<Rightarrow> False
          | Resolved status body \<Rightarrow> ok status \<and> body = Some data)
      \<and> (case history env of Rejected \<Rightarrow> False
          | Resolved status body \<Rightarrow> ok status \<and> body = Some es))"

definition isHttpGet :: "Effect \<Rightarrow> bool" where
  "isHttpGet e = (case e of HttpGet _ _ _ _ \<Rightarrow> True | _ \<Rightarrow> False)"

text \<open>
  The scheduling policy in the words of the specification: the estimate is the end of
  the most recent bucket plus its duration plus 15 seconds, whenever the snapshot has
  a bucket.
\<close>

definition specEstimate :: "Bucket \<Rightarrow> real" where
  "specEstimate b = toMills b + (toMills b - fromMills b) + 15000"

definition specDelay :: "NightscoutResponse \<Rightarrow> real \<Rightarrow> real" where
  "specDelay data now =
     (case firstBucket data of
        None \<Rightarrow> 30000
      | Some b \<Rightarrow>
          if specEstimate b > now \<and> specEstimate b - now \<le> 300000
          then min (specEstimate b - now) 30000
          else 30000)"

subsection \<open>Timers per instance\<close>

text \<open>The instance a pending timer will call back into, and which of the two callbacks it holds.\<close>

definition timerTarget :: "Timer \<Rightarrow> string" where
  "timerTarget t = (case tm_callback t of CallFetchAndRender c _ \<Rightarrow> c | CallRender c _ \<Rightarrow> c)"

definition isFetchTimer :: "Timer \<Rightarrow> bool" where
  "isFetchTimer t = (case tm_callback t of CallFetchAndRender _ _ \<Rightarrow> True | CallRender _ _ \<Rightarrow> False)"

text \<open>The pending fetch timers and the pending render timers of an instance identity.\<close>

definition pendingFetch :: "string \<Rightarrow> World \<Rightarrow> (handle \<times> Timer) list" where
  "pendingFetch c w = filter (\<lambda>p. isFetchTimer (snd p) \<and> timerTarget (snd p) = c) (timers w)"

definition pendingRender :: "string \<Rightarrow> World \<Rightarrow> (handle \<times> Timer) list" where
  "pendingRender c w = filter (\<lambda>p. \<not> isFetchTimer (snd p) \<and> timerTarget (snd p) = c) (timers w)"

text \<open>A pending timer is held when the instance it targets exists and stores its handle in the
  field of its kind.\<close>

definition heldBy :: "World \<Rightarrow> handle \<times> Timer \<Rightarrow> bool" where
  "heldBy w p =
     (case instances w (timerTarget (snd p)) of
        None \<Rightarrow> False
      | Some i \<Rightarrow> (if isFetchTimer (snd p) then fetchTimeout i else renderTimeout i) = Some (fst p))"

text \<open>The invariant of the timer table: handles are distinct and already issued, and every pending
  timer is held by its instance.\<close>

definition timerInv :: "World \<Rightarrow> bool" where
  "timerInv w =
     (distinct (map fst (timers w))
      \<and> list_all (\<lambda>p. fst p < nextHandle w \<and> heldBy w p) (timers w))"

text \<open>The two timer fields of an instance; worlds that agree on them for every identity.\<close>

definition slots :: "Instance \<Rightarrow> handle option \<times> handle option" where
  "slots i = (fetchTimeout i, renderTimeout i)"

definition sameSlots :: "World \<Rightarrow> World \<Rightarrow> bool" where
  "sameSlots w w' = (\<forall>c. map_option slots (instances w' c) = map_option slots (instances w c))"

text \<open>A world in which a fetch timer may be armed for \<open>c\<close>.\<close>

definition ready :: "string \<Rightarrow> World \<Rightarrow> bool" where
  "ready c w = (timerInv w \<and> instances w c \<noteq> None \<and> pendingFetch c w = [])"

text \<open>An appearance is fresh when its identity is not live; a sequence of events whose
  appearances are all fresh, from a given world.\<close>

definition appearsFresh :: "Event \<Rightarrow> World \<Rightarrow> bool" where
  "appearsFresh e w = (case e of WillAppear c _ _ \<Rightarrow> instances w c = None | _ \<Rightarrow> True)"

fun lifecycle :: "Event list \<Rightarrow> World \<Rightarrow> bool" where
  "lifecycle [] w = True"
| "lifecycle (e # es) w = (appearsFresh e w \<and> lifecycle es (step e w))"

text \<open>An appearance event of the identity \<open>c\<close>.\<close>

definition isAppearOf :: "string \<Rightarrow> Event \<Rightarrow> bool" where
  "isAppearOf c e = (case e of WillAppear c' _ _ \<Rightarrow> c' = c | _ \<Rightarrow> False)"

text \<open>The effects that concern one instance identity.\<close>

definition effectCtx :: "Effect \<Rightarrow> string" where
  "effectCtx e = (case e of HttpGet c _ _ _ \<Rightarrow> c | SetImage c _ \<Rightarrow> c | ShowAlert c \<Rightarrow> c)"

definition effectsFor :: "string \<Rightarrow> World \<Rightarrow> Effect list" where
  "effectsFor c w = filter (\<lambda>e. effectCtx e = c) (effects w)"

text \<open>An identity with no instance and no pending timer; a step that leaves an identity alone.\<close>

definition quiet :: "string \<Rightarrow> World \<Rightarrow> bool" where
  "quiet c w = (instances w c = None \<and> pendingFetch c w = [] \<and> pendingRender c w = [])"

definition untouched :: "string \<Rightarrow> World \<Rightarrow> World \<Rightarrow> bool" where
  "untouched c w w' =
     (instances w' c = instances w c \<and> effectsFor c w' = effectsFor c w
      \<and> (\<forall>p \<in> set (timers w'). timerTarget (snd p) = c \<longrightarrow> p \<in> set (timers w)))"

section \<open>Concrete inputs\<close>

definition readingOnly :: "real \<Rightarrow> NightscoutResponse" where
  "readingOnly v =
     \<lparr> bgnow = Some \<lparr> bgnow_last = Some v, bgnow_mills = None \<rparr>,
       delta = None, direction = None, buckets = None \<rparr>"

definition sample :: "real \<Rightarrow> real \<Rightarrow> NightscoutEntry" where
  "sample v t = \<lparr> sgv = v, date = t, entry_direction = None \<rparr>"

definition emptyPayload :: PayloadSettings where
  "emptyPayload =
     \<lparr> p_nightscoutUrl = None, p_token = None, p_unit = None, p_normalHigh = None,
       p_normalLow = None, p_urgentHigh = None, p_urgentLow = None, p_inRangeColor = None,
       p_normalColor = None, p_urgentColor = None, p_graphHours = None \<rparr>"

definition mmolDefaults :: Settings where
  "mmolDefaults = mergeSettings (emptyPayload\<lparr>p_unit := Some Mmol\<rparr>)"


definition urlPayload :: PayloadSettings where
  "urlPayload = emptyPayload\<lparr>p_nightscoutUrl := Some ''https://ns.example''\<rparr>"

text \<open>A key that has fetched once: a snapshot, a history and both timers pending.\<close>

definition liveInstance :: Instance where
  "liveInstance =
     \<lparr> displayMode = NUMBER, keyDownTime = None, fetchTimeout = Some 1, renderTimeout = Some 0,
       lastResponse = Some (readingOnly 100), lastEntries = Some [sample 100 0] \<rparr>"

definition liveWorld :: World where
  "liveWorld =
     \<lparr> instances = [''key1'' \<mapsto> liveInstance],
       timers = [(0, \<lparr>tm_callback = CallRender ''key1'' (asPayload (mergeSettings urlPayload)),
                      tm_delay = 60000\<rparr>),
                 (1, \<lparr>tm_callback = CallFetchAndRender ''key1'' urlPayload, tm_delay = 30000\<rparr>)],
       nextHandle = 2,
       effects = [] \<rparr>"

definition env500 :: Env where
  "env500 =
     \<lparr> urlParses = True, primary = Resolved 500 None, history = Rejected,
       renderNow = 1000, scheduleNow = 1000 \<rparr>"

text \<open>A snapshot with a bucket from 0 to 300000 and a reading taken at \<open>mills\<close>.\<close>

definition bucketSnapshot :: "real \<Rightarrow> NightscoutResponse" where
  "bucketSnapshot mills =
     \<lparr> bgnow = Some \<lparr> bgnow_last = Some 120, bgnow_mills = Some mills \<rparr>,
       delta = None, direction = None,
       buckets = Some [\<lparr> fromMills = 0, toMills = 300000 \<rparr>] \<rparr>"

definition envOk :: "NightscoutResponse \<Rightarrow> NightscoutEntry list FetchOutcome \<Rightarrow> real \<Rightarrow> Env" where
  "envOk data h now =
     \<lparr> urlParses = True, primary = Resolved 200 (Some data), history = h,
       renderNow = now, scheduleNow = now \<rparr>"

definition envHistoryRejected :: Env where
  "envHistoryRejected = envOk (readingOnly 120) Rejected 1000"

definition pressedWorld :: World where
  "pressedWorld = onKeyDown ''key1'' 1000 liveWorld"

text \<open>A first successful fetch: a reading of 100 and one history sample.\<close>

definition envFresh :: Env where
  "envFresh = envOk (readingOnly 100) (Resolved 200 (Some [sample 100 0])) 1000"

section \<open>Verified properties\<close>

subsection \<open>Rounding to binary64\<close>

lemma pow2_powr: "pow2 e = 2 powr (of_int e)"
proof (cases "e \<ge> 0")
  case True
  then have "(2::real) powr (of_int e) = 2 powr (real (nat e))" by simp
  also have "\<dots> = 2 ^ nat e" by (simp add: powr_realpow)
  finally show ?thesis using True by (simp add: pow2_def)
next
  case False
  then have "(2::real) powr (of_int e) = 2 powr (- real (nat (- e)))" by simp
  also have "\<dots> = 1 / 2 ^ nat (- e)" by (simp add: powr_minus powr_realpow divide_inverse)
  finally show ?thesis using False by (simp add: pow2_def)
qed

lemma pow2_pos: "0 < pow2 e"
  by (simp add: pow2_powr)

lemma pow2_add: "pow2 (a + b) = pow2 a * pow2 b"
  by (simp add: pow2_powr powr_add)

lemma pow2_nat: "pow2 (int n) = 2 ^ n"
  by (simp add: pow2_def)

lemma pow2_neg: "pow2 (- e) = 1 / pow2 e"
  by (simp add: pow2_powr powr_minus divide_inverse)

lemma floorlog2_bounds:
  assumes "0 < n"
  shows "(2::nat) ^ (floorlog 2 n - 1) \<le> n" and "n < 2 ^ floorlog 2 n" and "0 < floorlog 2 n"
proof -
  from floorlog_bounds [of n 2] assms
  show "(2::nat) ^ (floorlog 2 n - 1) \<le> n" and "n < 2 ^ floorlog 2 n" by simp_all
  show "0 < floorlog 2 n" using assms by (simp add: floorlog_def)
qed

lemma binExp_bounds:
  assumes "0 < x"
  shows "pow2 (binExp x) \<le> x" and "x < pow2 (binExp x + 1)"
proof -
  have "pow2 (binExp x) \<le> x \<and> x < pow2 (binExp x + 1)"
  proof (cases "x \<ge> 1")
    case True
    define n where "n = nat \<lfloor>x\<rfloor>"
    define b where "b = floorlog 2 n"
    have n: "0 < n" "real n \<le> x" "x < real n + 1"
      using True by (simp_all add: n_def)
    note fb = floorlog2_bounds [OF n(1), folded b_def]
    have e: "binExp x = int (b - 1)" "binExp x + 1 = int b"
      using True fb(3) by (simp_all add: binExp_def n_def b_def)
    have "(2::real) ^ (b - 1) \<le> real n"
      using fb(1) by (metis of_nat_le_iff of_nat_numeral of_nat_power)
    moreover have "real n + 1 \<le> 2 ^ b"
    proof -
      from fb(2) have "n + 1 \<le> 2 ^ b" by simp
      then have "real (n + 1) \<le> real (2 ^ b)" by (rule of_nat_mono)
      then show ?thesis by simp
    qed
    moreover have "pow2 (binExp x) = 2 ^ (b - 1)"
      by (simp only: e(1) pow2_nat)
    moreover have "pow2 (binExp x + 1) = 2 ^ b"
      by (simp only: e(2) pow2_nat)
    ultimately show ?thesis
      using n by linarith
  next
    case False
    define y where "y = 1 / x"
    have y: "1 < y" using assms False by (simp add: y_def)
    define m where "m = nat (\<lceil>y\<rceil> - 1)"
    define c where "c = floorlog 2 m"
    have m: "0 < m" "real m < y" "y \<le> real m + 1"
      using y by (simp_all add: m_def) linarith
    note fb = floorlog2_bounds [OF m(1), folded c_def]
    have e: "binExp x = - int c" "binExp x + 1 = - int (c - 1)"
      using False fb(3) by (simp_all add: binExp_def m_def c_def y_def)
    have lo: "(2::real) ^ (c - 1) \<le> real m"
      using fb(1) by (metis of_nat_le_iff of_nat_numeral of_nat_power)
    have hi: "real m + 1 \<le> 2 ^ c"
    proof -
      from fb(2) have "m + 1 \<le> 2 ^ c" by simp
      then have "real (m + 1) \<le> real (2 ^ c)" by (rule of_nat_mono)
      then show ?thesis by simp
    qed
    have x: "x = 1 / y" using assms by (simp add: y_def)
    have ypos: "0 < y" using y by simp
    have "y \<le> 2 ^ c" using hi m(3) by linarith
    from divide_left_mono [OF this, of 1] ypos have 1: "1 / 2 ^ c \<le> x"
      unfolding x by simp
    have "(2::real) ^ (c - 1) < y" using lo m(2) by linarith
    from divide_strict_left_mono [OF this, of 1] ypos have 2: "x < 1 / 2 ^ (c - 1)"
      unfolding x by simp
    have "pow2 (binExp x) = 1 / 2 ^ c"
      by (simp only: e(1) pow2_neg pow2_nat)
    moreover have "pow2 (binExp x + 1) = 1 / 2 ^ (c - 1)"
      by (simp only: e(2) pow2_neg pow2_nat)
    ultimately show ?thesis using 1 2 by simp
  qed
  then show "pow2 (binExp x) \<le> x" and "x < pow2 (binExp x + 1)" by simp_all
qed

lemma roundEven_error: "\<bar>of_int (roundEven y) - y\<bar> \<le> 1 / 2"
  unfolding roundEven_def Let_def by (auto simp add: abs_le_iff)

lemma fl_error: "\<bar>fl x - x\<bar> \<le> \<bar>x\<bar> / 2 ^ 53 + 1 / 2 ^ 1075"
proof (cases "x = 0")
  case True
  then show ?thesis by (simp add: fl_def)
next
  case False
  define e where "e = binExp \<bar>x\<bar>"
  define E where "E = max (e - 52) (- 1074)"
  define y where "y = x / pow2 E"
  have pos: "0 < \<bar>x\<bar>" using False by simp
  have lo: "pow2 e \<le> \<bar>x\<bar>" unfolding e_def using pos by (rule binExp_bounds)
  have f: "fl x = of_int (roundEven y) * pow2 E"
    using False by (simp add: fl_def Let_def E_def e_def y_def)
  have x: "x = y * pow2 E" using pow2_pos [of E] by (simp add: y_def)
  have "\<bar>fl x - x\<bar> = \<bar>of_int (roundEven y) - y\<bar> * pow2 E"
  proof -
    have "fl x - x = of_int (roundEven y) * pow2 E - y * pow2 E"
      using f x by simp
    then have "fl x - x = (of_int (roundEven y) - y) * pow2 E"
      by (simp add: algebra_simps)
    then show ?thesis using pow2_pos [of E] by (simp add: abs_mult)
  qed
  also have "\<dots> \<le> 1 / 2 * pow2 E"
    using roundEven_error [of y] pow2_pos [of E] by (intro mult_right_mono) simp_all
  finally have b: "\<bar>fl x - x\<bar> \<le> pow2 E / 2" by simp
  have "pow2 E / 2 \<le> \<bar>x\<bar> / 2 ^ 53 + 1 / 2 ^ 1075"
  proof (cases "e - 52 \<ge> - 1074")
    case True
    then have "E = e + (- 53) + 1" by (simp add: E_def)
    then have "pow2 E = pow2 e * pow2 (- 53) * pow2 1" by (simp only: pow2_add)
    also have "\<dots> = pow2 e / 2 ^ 53 * 2" by (simp add: pow2_def)
    finally have "pow2 E / 2 = pow2 e / 2 ^ 53" by simp
    also have "\<dots> \<le> \<bar>x\<bar> / 2 ^ 53" using lo by (simp add: divide_right_mono)
    finally show ?thesis by simp
  next
    case False
    then have "E = - 1074" by (simp add: E_def)
    then have "pow2 E / 2 = 1 / 2 ^ 1075" by (simp add: pow2_def)
    then show ?thesis by simp
  qed
  with b show ?thesis by linarith
qed


lemma mathRound_error: "\<bar>mathRound x - x\<bar> \<le> 1 / 2"
  unfolding mathRound_def by linarith

lemma fl_error_num:
  "\<exists>h. 0 \<le> h \<and> h \<le> 1 / 18014398509481984
      \<and> (\<forall>x. \<bar>fl x - x\<bar> \<le> \<bar>x\<bar> / 9007199254740992 + h)"
proof (intro exI conjI allI)
  show "(0::real) \<le> 1 / 2 ^ 1075" by simp
  show "(1::real) / 2 ^ 1075 \<le> 1 / 18014398509481984"
  proof -
    have "(2::real) ^ 54 \<le> 2 ^ 1075" by (rule power_increasing) simp_all
    then have "(1::real) / 2 ^ 1075 \<le> 1 / 2 ^ 54" by (simp add: field_simps)
    then show ?thesis by simp
  qed
  show "\<bar>fl x - x\<bar> \<le> \<bar>x\<bar> / 9007199254740992 + 1 / 2 ^ 1075" for x
    using fl_error [of x] by simp
qed

lemma abs_le_add: "\<bar>x\<bar> \<le> \<bar>y\<bar> + \<bar>x - y\<bar>" for x y :: real
  by linarith

lemma toMmol_error: "\<bar>toMmol v - v / 18\<bar> \<le> 1 / 20 + (\<bar>v\<bar> + 1) / 2 ^ 50"
proof -
  obtain h where h: "0 \<le> h" "h \<le> 1 / 18014398509481984"
    and e: "\<And>x. \<bar>fl x - x\<bar> \<le> \<bar>x\<bar> / 9007199254740992 + h"
    using fl_error_num by blast
  define a where "a = fl (v / 18)"
  define b where "b = fl (a * 10)"
  define k where "k = mathRound b"
  define r where "r = fl (k / 10)"
  have r: "toMmol v = r" by (simp add: toMmol_def r_def k_def b_def a_def)
  define A where "A = \<bar>v\<bar>"
  define Da where "Da = \<bar>a - v / 18\<bar>"
  define Db where "Db = \<bar>b - a * 10\<bar>"
  define Dk where "Dk = \<bar>k - b\<bar>"
  define Dr where "Dr = \<bar>r - k / 10\<bar>"
  define Na where "Na = \<bar>a\<bar>"
  define Nb where "Nb = \<bar>b\<bar>"
  define Nk where "Nk = \<bar>k\<bar>"
  define T where "T = \<bar>r - v / 18\<bar>"
  have A: "0 \<le> A" by (simp add: A_def)
  have ea: "Da \<le> A / 18 / 9007199254740992 + h"
    using e [of "v / 18"] by (simp add: Da_def a_def A_def)
  have eb: "Db \<le> 10 * Na / 9007199254740992 + h"
    using e [of "a * 10"] by (simp add: Db_def b_def Na_def abs_mult)
  have ek: "Dk \<le> 1 / 2"
    unfolding Dk_def k_def by (rule mathRound_error)
  have er: "Dr \<le> Nk / 10 / 9007199254740992 + h"
    using e [of "k / 10"] by (simp add: Dr_def r_def Nk_def)
  have na: "Na \<le> A / 18 + Da"
    using abs_le_add [of a "v / 18"] by (simp add: Na_def Da_def A_def)
  have nb: "Nb \<le> 10 * Na + Db"
    using abs_le_add [of b "a * 10"] by (simp add: Nb_def Db_def Na_def abs_mult)
  have nk: "Nk \<le> Nb + Dk"
    using abs_le_add [of k b] by (simp add: Nk_def Nb_def Dk_def)
  have t: "T \<le> Dr + Dk / 10 + Db / 10 + Da"
  proof -
    define d1 where "d1 = r - k / 10"
    define d2 where "d2 = (k - b) / 10"
    define d3 where "d3 = (b - a * 10) / 10"
    define d4 where "d4 = a - v / 18"
    have s: "r - v / 18 = d1 + d2 + d3 + d4"
      by (simp add: d1_def d2_def d3_def d4_def field_simps)
    have "\<bar>d1 + d2 + d3 + d4\<bar> \<le> \<bar>d1\<bar> + \<bar>d2\<bar> + \<bar>d3\<bar> + \<bar>d4\<bar>"
      by linarith
    moreover have "\<bar>d1\<bar> = Dr" "\<bar>d2\<bar> = Dk / 10" "\<bar>d3\<bar> = Db / 10" "\<bar>d4\<bar> = Da"
      by (simp_all add: d1_def d2_def d3_def d4_def Dr_def Dk_def Db_def Da_def)
    ultimately show ?thesis unfolding T_def s by simp
  qed
  from t ea eb ek er na nb nk A h
  have "T \<le> 1 / 20 + (A + 1) / 1125899906842624"
    by argo
  then show ?thesis unfolding T_def r A_def by simp
qed

lemma toMmol_back_error: "\<bar>toMmol v * 18 - v\<bar> \<le> 9 / 10 + (\<bar>v\<bar> + 1) / 2 ^ 45"
proof -
  define X where "X = \<bar>toMmol v * 18 - v\<bar>"
  define Y where "Y = \<bar>toMmol v - v / 18\<bar>"
  define V where "V = \<bar>v\<bar>"
  have 1: "X = 18 * Y"
    by (simp add: X_def Y_def abs_if)
  have 2: "Y \<le> 1 / 20 + (V + 1) / 1125899906842624"
    using toMmol_error [of v] by (simp add: Y_def V_def)
  have 3: "0 \<le> V" by (simp add: V_def)
  from 1 2 3 have "X \<le> 9 / 10 + (V + 1) / 35184372088832"
    by argo
  then show ?thesis by (simp add: X_def V_def)
qed

text \<open>
  Two values of the conversion: a reading of 100 is shown as the double nearest to 5.6;
  the double nearest to 6.3 is shown as 0.4, since the product of its rounded quotient
  by 10 rounds to the tie 3.5, although a twentieth of 6.3 rounded down is 0.3.
\<close>

lemma toMmol_100: "toMmol 100 = 3152519739159347 / 562949953421312"
  by code_simp

lemma toMmol_tie: "toMmol (fl (63 / 10)) = fl (4 / 10)"
  by code_simp

subsection \<open>Number renderer\<close>

lemma renderNumber_present:
  assumes "getLast data = Some v0" and "v0 \<noteq> 0"
  shows "renderNumber data s now =
           NumberImage
             \<lparr> nv_color =
                 (let v = (if unit s = Mmol then toMmol v0 else v0)
                  in if v \<ge> urgentHigh s \<or> v \<le> urgentLow s then urgentColor s
                     else if v \<ge> normalHigh s \<or> v \<le> normalLow s then normalColor s
                     else inRangeColor s),
               nv_reading = (if unit s = Mmol then toMmol v0 else v0),
               nv_arrow = arrowOf data, nv_delta = deltaText data s, nv_ago = agoDisplay data now \<rparr>"
  using assms by (simp add: renderNumber_def Let_def)

text \<open>
  Claim C5. In Number mode the displayed colour follows the converted reading: the
  urgent colour when the reading is at or above urgent-high or at or below urgent-low;
  otherwise the normal-alert colour when it is at or above normal-high or at or below
  normal-low; otherwise the in-range colour. The boundaries belong to the alert side.
  Where the configured colours differ from each other, each of the three holds if and
  only if its condition does.
\<close>

theorem number_color_classification:
  assumes "getLast data = Some v0" and "v0 \<noteq> 0"
  shows "\<exists>nv. renderNumber data s now = NumberImage nv
           \<and> nv_reading nv = (if unit s = Mmol then toMmol v0 else v0)
           \<and> nv_color nv =
               (if nv_reading nv \<ge> urgentHigh s \<or> nv_reading nv \<le> urgentLow s then urgentColor s
                else if nv_reading nv \<ge> normalHigh s \<or> nv_reading nv \<le> normalLow s then normalColor s
                else inRangeColor s)
           \<and> (urgentColor s \<noteq> normalColor s \<and> urgentColor s \<noteq> inRangeColor s \<longrightarrow>
                (nv_color nv = urgentColor s
                   \<longleftrightarrow> nv_reading nv \<ge> urgentHigh s \<or> nv_reading nv \<le> urgentLow s))
           \<and> (normalColor s \<noteq> urgentColor s \<and> normalColor s \<noteq> inRangeColor s \<longrightarrow>
                (nv_color nv = normalColor s
                   \<longleftrightarrow> \<not> (nv_reading nv \<ge> urgentHigh s \<or> nv_reading nv \<le> urgentLow s)
                        \<and> (nv_reading nv \<ge> normalHigh s \<or> nv_reading nv \<le> normalLow s)))
           \<and> (inRangeColor s \<noteq> urgentColor s \<and> inRangeColor s \<noteq> normalColor s \<longrightarrow>
                (nv_color nv = inRangeColor s
                   \<longleftrightarrow> \<not> (nv_reading nv \<ge> urgentHigh s \<or> nv_reading nv \<le> urgentLow s)
                        \<and> \<not> (nv_reading nv \<ge> normalHigh s \<or> nv_reading nv \<le> normalLow s)))"
  unfolding renderNumber_present [OF assms] Let_def by auto

text \<open>A reading of 100 under the default settings is shown in the in-range colour.\<close>

theorem number_color_classification_witness:
  "getLast (readingOnly 100) = Some 100 \<and> (100::real) \<noteq> 0
   \<and> (\<exists>nv. renderNumber (readingOnly 100) DEFAULT_SETTINGS 0 = NumberImage nv
          \<and> nv_reading nv = 100 \<and> nv_color nv = ''#00FF00'')"
proof -
  have h: "getLast (readingOnly 100) = Some 100"
    by (simp add: getLast_def readingOnly_def)
  from number_color_classification [OF h, of DEFAULT_SETTINGS 0]
  show ?thesis using h by (auto simp add: DEFAULT_SETTINGS_def)
qed

text \<open>
  Claim C6, as amended. With the molar unit selected the displayed reading is the
  reading divided by 18 and rounded to one decimal place, computed on doubles as
  \<^verbatim>\<open>Math.round((last / 18) * 10) / 10\<close>: the double nearest to a whole number of tenths,
  at most 0.05 away from the exact quotient up to the rounding error of the three double
  operations; otherwise the reading is left unchanged. Multiplying the displayed molar
  value by 18 gives back the original reading within 0.9 (18 times the 0.05) up to that
  rounding error, rather than within 0.1.
\<close>

theorem unit_conversion_roundtrip:
  assumes "getLast data = Some v0" and "v0 \<noteq> 0"
  shows "(unit s = Mmol \<longrightarrow>
            numberReading (renderNumber data s now) = Some (toMmol v0)
            \<and> toMmol v0 = fl (mathRound (fl (fl (v0 / 18) * 10)) / 10)
            \<and> (\<exists>k::int. toMmol v0 = fl (of_int k / 10))
            \<and> \<bar>toMmol v0 - v0 / 18\<bar> \<le> 1 / 20 + (\<bar>v0\<bar> + 1) / 2 ^ 50
            \<and> \<bar>toMmol v0 * 18 - v0\<bar> \<le> 9 / 10 + (\<bar>v0\<bar> + 1) / 2 ^ 45)
         \<and> (unit s \<noteq> Mmol \<longrightarrow> numberReading (renderNumber data s now) = Some v0)"
proof -
  have 1: "numberReading (renderNumber data s now) = Some (if unit s = Mmol then toMmol v0 else v0)"
    unfolding renderNumber_present [OF assms] by (simp add: numberReading_def)
  have 2: "toMmol v0 = fl (mathRound (fl (fl (v0 / 18) * 10)) / 10)"
    by (simp add: toMmol_def)
  have 3: "\<exists>k::int. toMmol v0 = fl (of_int k / 10)"
    unfolding toMmol_def mathRound_def by (rule exI) (rule refl)
  note 4 = toMmol_error [of v0]
  note 5 = toMmol_back_error [of v0]
  show ?thesis
  proof (cases "unit s = Mmol")
    case True
    with 1 have "numberReading (renderNumber data s now) = Some (toMmol v0)" by simp
    with True 2 3 4 5 show ?thesis by blast
  next
    case False
    with 1 show ?thesis by simp
  qed
qed

text \<open>A reading of 100 is shown as the double nearest to 5.6, and 18 times it is near 100.8.\<close>

theorem unit_conversion_roundtrip_witness:
  "getLast (readingOnly 100) = Some 100 \<and> (100::real) \<noteq> 0 \<and> unit mmolDefaults = Mmol
   \<and> numberReading (renderNumber (readingOnly 100) mmolDefaults 0)
        = Some (3152519739159347 / 562949953421312)
   \<and> \<bar>(3152519739159347 / 562949953421312) * 18 - (100::real)\<bar> \<le> 9 / 10 + (\<bar>100\<bar> + 1) / 2 ^ 45"
proof -
  have h: "getLast (readingOnly 100) = Some 100"
    by (simp add: getLast_def readingOnly_def)
  have n: "(100::real) \<noteq> 0" by simp
  have u: "unit mmolDefaults = Mmol"
    by (simp add: mmolDefaults_def mergeSettings_def emptyPayload_def orDefault_def)
  note th = unit_conversion_roundtrip [OF h n, of mmolDefaults 0]
  from th u have a: "numberReading (renderNumber (readingOnly 100) mmolDefaults 0) = Some (toMmol 100)"
    by blast
  from th u have b: "\<bar>toMmol 100 * 18 - 100\<bar> \<le> 9 / 10 + (\<bar>100\<bar> + 1) / 2 ^ 45"
    by blast
  show ?thesis using h n u a b unfolding toMmol_100 by blast
qed

text \<open>
  Claim C6 as stated fails: a reading of 100 is shown as the double nearest to 5.6, and
  converting back gives about 100.8, which is 0.8 away from the original and so not
  within 0.1.
\<close>

theorem roundtrip_tenth_counterexample:
  "numberReading (renderNumber (readingOnly 100) mmolDefaults 0)
     = Some (3152519739159347 / 562949953421312)
   \<and> \<not> \<bar>(3152519739159347 / 562949953421312) * 18 - (100::real)\<bar> \<le> 1 / 10"
proof -
  have "numberReading (renderNumber (readingOnly 100) mmolDefaults 0) = Some (toMmol 100)"
    by (simp add: renderNumber_def readingOnly_def getLast_def mmolDefaults_def mergeSettings_def
          emptyPayload_def orDefault_def DEFAULT_SETTINGS_def numberReading_def Let_def)
  then show ?thesis unfolding toMmol_100 by simp
qed

subsection \<open>Graph renderer\<close>

lemma getX_single: "getX (Suc 0) 0 = NaN"
  by (simp add: getX_def signedInf_def)

lemma renderGraph_NoHistory_iff: "renderGraph data es s = NoHistory \<longleftrightarrow> es = []"
  by (simp add: renderGraph_def Let_def)

text \<open>
  Claim C9. A history of exactly one sample passes the empty-history guard; the
  x coordinate of its marker and of its path command is 0 divided by 0, which is NaN,
  a non-finite number. The placeholder is returned for the empty history only.
\<close>

theorem single_sample_nan_coordinate:
  "renderGraph data [e] s \<noteq> NoHistory
   \<and> map cx (graphCircles (renderGraph data [e] s)) = [NaN]
   \<and> (\<exists>y. graphPath (renderGraph data [e] s) = [MoveTo NaN y])
   \<and> \<not> isFinite NaN
   \<and> (renderGraph data es s = NoHistory \<longleftrightarrow> es = [])"
proof -
  have 1: "renderGraph data [e] s \<noteq> NoHistory"
    by (simp add: renderGraph_NoHistory_iff)
  have 2: "map cx (graphCircles (renderGraph data [e] s)) = [NaN]"
    by (simp add: renderGraph_def graphCircles_def Let_def getX_single)
  have 3: "\<exists>y. graphPath (renderGraph data [e] s) = [MoveTo NaN y]"
    by (simp add: renderGraph_def graphPath_def Let_def getX_single)
  have 4: "\<not> isFinite NaN"
    by (simp add: isFinite_def)
  show ?thesis using 1 2 3 4 renderGraph_NoHistory_iff by blast
qed

text \<open>
  Claim C10. A current reading of exactly 0 is rendered as an absent reading is:
  the Number renderer returns the placeholder, and the Graph renderer returns the same
  image as without the reading, whose header has no text, no arrow and the in-range
  colour.
\<close>

theorem zero_reading_as_absent:
  assumes "bgnow data = Some b" and "bgnow_last b = Some 0"
  shows "renderNumber data s now = NoData
         \<and> renderNumber (data\<lparr>bgnow := Some (b\<lparr>bgnow_last := None\<rparr>)\<rparr>) s now = NoData
         \<and> renderNumber (data\<lparr>bgnow := None\<rparr>) s now = NoData
         \<and> renderGraph data es s = renderGraph (data\<lparr>bgnow := Some (b\<lparr>bgnow_last := None\<rparr>)\<rparr>) es s
         \<and> renderGraph data es s = renderGraph (data\<lparr>bgnow := None\<rparr>) es s
         \<and> (es \<noteq> [] \<longrightarrow> graphHeader (renderGraph data es s) = Some ([], [], inRangeColor s))"
proof -
  have l: "getLast data = Some 0" using assms by (simp add: getLast_def)
  have 1: "renderNumber data s now = NoData"
    using l by (simp add: renderNumber_def)
  have 2: "renderNumber (data\<lparr>bgnow := Some (b\<lparr>bgnow_last := None\<rparr>)\<rparr>) s now = NoData"
    by (simp add: renderNumber_def getLast_def)
  have 3: "renderNumber (data\<lparr>bgnow := None\<rparr>) s now = NoData"
    by (simp add: renderNumber_def getLast_def)
  have 4: "renderGraph data es s = renderGraph (data\<lparr>bgnow := Some (b\<lparr>bgnow_last := None\<rparr>)\<rparr>) es s"
    using l by (simp add: renderGraph_def Let_def truthyNum_def getLast_def)
  have 5: "renderGraph data es s = renderGraph (data\<lparr>bgnow := None\<rparr>) es s"
    using l by (simp add: renderGraph_def Let_def truthyNum_def getLast_def)
  have 6: "es \<noteq> [] \<longrightarrow> graphHeader (renderGraph data es s) = Some ([], [], inRangeColor s)"
    using l by (simp add: renderGraph_def Let_def truthyNum_def graphHeader_def)
  show ?thesis using 1 2 3 4 5 6 by blast
qed

text \<open>A snapshot whose reading is 0, under the default settings.\<close>

theorem zero_reading_as_absent_witness:
  "bgnow (readingOnly 0) = Some \<lparr> bgnow_last = Some 0, bgnow_mills = None \<rparr>
   \<and> bgnow_last \<lparr> bgnow_last = Some (0::real), bgnow_mills = None \<rparr> = Some 0
   \<and> renderNumber (readingOnly 0) DEFAULT_SETTINGS 0 = NoData
   \<and> graphHeader (renderGraph (readingOnly 0) [sample 100 0] DEFAULT_SETTINGS) = Some ([], [], ''#00FF00'')"
proof -
  have h1: "bgnow (readingOnly 0) = Some \<lparr> bgnow_last = Some 0, bgnow_mills = None \<rparr>"
    by (simp add: readingOnly_def)
  have h2: "bgnow_last \<lparr> bgnow_last = Some (0::real), bgnow_mills = None \<rparr> = Some 0"
    by simp
  note t = zero_reading_as_absent [OF h1 h2, of DEFAULT_SETTINGS 0 "[sample 100 0]"]
  have c: "inRangeColor DEFAULT_SETTINGS = ''#00FF00''"
    by (simp add: DEFAULT_SETTINGS_def)
  from t have n: "renderNumber (readingOnly 0) DEFAULT_SETTINGS 0 = NoData"
    by blast
  from t have "[sample 100 0] \<noteq> [] \<longrightarrow>
                 graphHeader (renderGraph (readingOnly 0) [sample 100 0] DEFAULT_SETTINGS)
                    = Some ([], [], inRangeColor DEFAULT_SETTINGS)"
    by blast
  then have g: "graphHeader (renderGraph (readingOnly 0) [sample 100 0] DEFAULT_SETTINGS)
                    = Some ([], [], inRangeColor DEFAULT_SETTINGS)"
    by simp
  show ?thesis using h1 n g c by simp
qed

text \<open>
  Claim C1 fails on the code. With the molar unit selected and the default thresholds,
  a reading of 100 is classified as urgent by the Number renderer, which compares the
  converted reading (the double nearest to 5.6) with the thresholds as configured, and
  as in range by the Graph renderer, both for the marker of a sample of the same value
  and for the header, since it divides the thresholds by 18 before comparing.
\<close>

theorem number_graph_disagree_mmol:
  "numberColor (renderNumber (readingOnly 100) mmolDefaults 0) = Some ''#FF0000''
   \<and> map fill (graphCircles (renderGraph (readingOnly 100) [sample 100 0] mmolDefaults)) = [''#00FF00'']
   \<and> graphHeader (renderGraph (readingOnly 100) [sample 100 0] mmolDefaults)
       = Some ([Num (3152519739159347 / 562949953421312), Lit '' '', Lit []], ''U+2192'', ''#00FF00'')"
proof -
  have s: "mmolDefaults = DEFAULT_SETTINGS\<lparr>unit := Mmol\<rparr>"
    by (simp add: mmolDefaults_def mergeSettings_def emptyPayload_def orDefault_def DEFAULT_SETTINGS_def)
  have 1: "numberColor (renderNumber (readingOnly 100) mmolDefaults 0) = Some ''#FF0000''"
    unfolding s
    by (simp add: renderNumber_def readingOnly_def getLast_def DEFAULT_SETTINGS_def toMmol_100
          numberColor_def Let_def)
  have 2: "map fill (graphCircles (renderGraph (readingOnly 100) [sample 100 0] mmolDefaults)) = [''#00FF00'']"
    unfolding s
    by (simp add: renderGraph_def graphCircles_def circleColor_def sample_def DEFAULT_SETTINGS_def Let_def)
  have 3: "graphHeader (renderGraph (readingOnly 100) [sample 100 0] mmolDefaults)
       = Some ([Num (3152519739159347 / 562949953421312), Lit '' '', Lit []], ''U+2192'', ''#00FF00'')"
    unfolding s
    by (simp add: renderGraph_def graphHeader_def sample_def DEFAULT_SETTINGS_def Let_def
          readingOnly_def getLast_def truthyNum_def toMmol_100 deltaText_def getDisplay_def
          getScaled_def strOr_def arrowOf_def getLabel_def lookupArrow_def DIRECTION_ARROWS_def)
  show ?thesis using 1 2 3 by blast
qed

text \<open>With the unit mg/dL selected the two renderers classify alike.\<close>

lemma number_graph_agree_mgdl:
  assumes "getLast data = Some v" and "v \<noteq> 0" and "unit s = Mgdl"
  shows "numberColor (renderNumber data s now) = Some (circleColor s v)"
  using assms by (simp add: renderNumber_def numberColor_def circleColor_def Let_def)

subsection \<open>Fetch scheduler and key handling\<close>

lemma emit_simps:
  "effects (emit e w) = effects w @ [e]"
  "timers (emit e w) = timers w"
  "instances (emit e w) = instances w"
  "nextHandle (emit e w) = nextHandle w"
  by (simp_all add: emit_def)

lemma clearTimeout_simps:
  "effects (clearTimeout ho w) = effects w"
  "timers (clearTimeout ho w) = filter (\<lambda>p. Some (fst p) \<noteq> ho) (timers w)"
  "instances (clearTimeout ho w) = instances w"
  "nextHandle (clearTimeout ho w) = nextHandle w"
  by (simp_all add: clearTimeout_def split: option.split)

lemma setTimeout_simps:
  "fst (setTimeout cb ms w) = nextHandle w"
  "effects (snd (setTimeout cb ms w)) = effects w"
  "timers (snd (setTimeout cb ms w)) = timers w @ [(nextHandle w, \<lparr>tm_callback = cb, tm_delay = ms\<rparr>)]"
  "instances (snd (setTimeout cb ms w)) = instances w"
  "nextHandle (snd (setTimeout cb ms w)) = Suc (nextHandle w)"
  by (simp_all add: setTimeout_def)

lemma updInstance_simps:
  "effects (updInstance c f w) = effects w"
  "timers (updInstance c f w) = timers w"
  "instances (updInstance c f w) =
     (case instances w c of None \<Rightarrow> instances w | Some i \<Rightarrow> (instances w)(c \<mapsto> f i))"
  "nextHandle (updInstance c f w) = nextHandle w"
  by (simp_all add: updInstance_def split: option.split)

lemmas prim_simps = emit_simps clearTimeout_simps setTimeout_simps updInstance_simps

lemma onFetchError_simps:
  "effects (onFetchError c s w) = effects w @ [ShowAlert c]"
  "timers (onFetchError c s w) =
     timers w @ [(nextHandle w, \<lparr>tm_callback = CallFetchAndRender c s, tm_delay = 60000\<rparr>)]"
  "instances (onFetchError c s w) =
     (case instances w c of None \<Rightarrow> instances w
      | Some i \<Rightarrow> (instances w)(c \<mapsto> i\<lparr>fetchTimeout := Some (nextHandle w)\<rparr>))"
  "nextHandle (onFetchError c s w) = Suc (nextHandle w)"
  by (simp_all add: onFetchError_def Let_def split_def prim_simps split: option.split)

lemma render_simps:
  assumes "instances w c = Some i" and "lastResponse i = Some data"
  shows "effects (render c s now w) = effects w @ [SetImage c (svgContent i data (mergeSettings s) now)]"
    and "timers (render c s now w) =
           filter (\<lambda>p. Some (fst p) \<noteq> renderTimeout i) (timers w)
             @ [(nextHandle w, \<lparr>tm_callback = CallRender c s, tm_delay = 60000\<rparr>)]"
    and "instances (render c s now w) = (instances w)(c \<mapsto> i\<lparr>renderTimeout := Some (nextHandle w)\<rparr>)"
    and "nextHandle (render c s now w) = Suc (nextHandle w)"
  using assms by (simp_all add: render_def Let_def split_def prim_simps svgContent_def)

lemma render_noop:
  "instances w c = None \<Longrightarrow> render c s now w = w"
  "instances w c = Some i \<Longrightarrow> lastResponse i = None \<Longrightarrow> render c s now w = w"
  by (simp_all add: render_def)


lemma fetchAndRender_primary_fails:
  assumes "instances w c = Some inst"
    and "nightscoutUrl (mergeSettings s) = Some url" and "url \<noteq> []" and "urlParses env"
    and "primaryFails env"
  shows "fetchAndRender c s force env w =
           onFetchError c s
             (emit (HttpGet c url PropertiesEndpoint (secretOf (mergeSettings s))) (cleared inst w))"
  using assms
  by (auto simp add: fetchAndRender_def fetchAndRenderStart_def fetchAndRenderResume_def primaryFails_def cleared_def Let_def
        split: FetchOutcome.splits option.splits)

lemma fetchAndRender_history_tolerated:
  assumes "instances w c = Some inst"
    and "nightscoutUrl (mergeSettings s) = Some url" and "url \<noteq> []" and "urlParses env"
    and "primary env = Resolved status (Some data)" and "ok status"
    and "history env = Resolved hstatus hbody" and "\<not> ok hstatus"
  shows "fetchAndRender c s force env w =
           renderAndSchedule c s (mergeSettings s) data env
             (emit (HttpGet c url (EntriesEndpoint \<lceil>(graphHours (mergeSettings s) * 60) / 5\<rceil>)
                      (secretOf (mergeSettings s)))
                (updInstance c (\<lambda>i. i\<lparr>lastResponse := Some data\<rparr>)
                   (emit (HttpGet c url PropertiesEndpoint (secretOf (mergeSettings s)))
                      (cleared inst w))))"
  using assms
  by (simp add: fetchAndRender_def fetchAndRenderStart_def fetchAndRenderResume_def cleared_def Let_def)

lemma fetchAndRender_history_stored:
  assumes "instances w c = Some inst"
    and "nightscoutUrl (mergeSettings s) = Some url" and "url \<noteq> []" and "urlParses env"
    and "primary env = Resolved status (Some data)" and "ok status"
    and "history env = Resolved hstatus (Some es)" and "ok hstatus"
  shows "fetchAndRender c s force env w =
           renderAndSchedule c s (mergeSettings s) data env
             (updInstance c (\<lambda>i. i\<lparr>lastEntries := Some es\<rparr>)
               (emit (HttpGet c url (EntriesEndpoint \<lceil>(graphHours (mergeSettings s) * 60) / 5\<rceil>)
                      (secretOf (mergeSettings s)))
                (updInstance c (\<lambda>i. i\<lparr>lastResponse := Some data\<rparr>)
                   (emit (HttpGet c url PropertiesEndpoint (secretOf (mergeSettings s)))
                      (cleared inst w)))))"
  using assms
  by (simp add: fetchAndRender_def fetchAndRenderStart_def fetchAndRenderResume_def cleared_def Let_def)

lemma fetchAndRender_history_throws:
  assumes "instances w c = Some inst"
    and "nightscoutUrl (mergeSettings s) = Some url" and "url \<noteq> []" and "urlParses env"
    and "primary env = Resolved status (Some data)" and "ok status"
    and "history env = Rejected \<or> (\<exists>hstatus. ok hstatus \<and> history env = Resolved hstatus None)"
  shows "fetchAndRender c s force env w =
           onFetchError c s
             (emit (HttpGet c url (EntriesEndpoint \<lceil>(graphHours (mergeSettings s) * 60) / 5\<rceil>)
                      (secretOf (mergeSettings s)))
                (updInstance c (\<lambda>i. i\<lparr>lastResponse := Some data\<rparr>)
                   (emit (HttpGet c url PropertiesEndpoint (secretOf (mergeSettings s)))
                      (cleared inst w))))"
  using assms
  by (auto simp add: fetchAndRender_def fetchAndRenderStart_def fetchAndRenderResume_def cleared_def Let_def)

lemma mergeSettings_asPayload: "mergeSettings (asPayload s) = s"
  by (simp add: mergeSettings_def asPayload_def orDefault_def)

lemma renderAndSchedule_simps:
  assumes "instances w c = Some i" and "lastResponse i = Some data'"
  shows "effects (renderAndSchedule c s ms data env w) =
           effects w @ [SetImage c (svgContent i data' ms (renderNow env))]"
    and "timers (renderAndSchedule c s ms data env w) =
           filter (\<lambda>p. Some (fst p) \<noteq> renderTimeout i) (timers w)
             @ [(nextHandle w, \<lparr>tm_callback = CallRender c (asPayload ms), tm_delay = 60000\<rparr>),
                (Suc (nextHandle w),
                 \<lparr>tm_callback = CallFetchAndRender c s, tm_delay = nextSleepMs data (scheduleNow env)\<rparr>)]"
    and "instances (renderAndSchedule c s ms data env w) =
           (instances w)(c \<mapsto> i\<lparr>renderTimeout := Some (nextHandle w),
                                   fetchTimeout := Some (Suc (nextHandle w))\<rparr>)"
    and "nextHandle (renderAndSchedule c s ms data env w) = Suc (Suc (nextHandle w))"
  using assms
  by (simp_all add: renderAndSchedule_def Let_def split_def prim_simps render_simps
        mergeSettings_asPayload)

lemma cleared_simps:
  "effects (cleared i w) = effects w"
  "timers (cleared i w) =
     filter (\<lambda>p. Some (fst p) \<noteq> fetchTimeout i \<and> Some (fst p) \<noteq> renderTimeout i) (timers w)"
  "instances (cleared i w) = instances w"
  "nextHandle (cleared i w) = nextHandle w"
  by (auto simp add: cleared_def prim_simps intro: filter_cong)

lemma nextSleepMs_le: "nextSleepMs data now \<le> 30000"
  by (simp add: nextSleepMs_def split: option.split)

text \<open>
  Claim C4. When the primary request fails (it is rejected, answers with a status that
  is not OK such as 500, or its body does not parse), \<open>fetchAndRender\<close> shows the
  alert, leaves the stored snapshot (and the rest of the instance but the fetch timer)
  as it was before the call, and schedules the retry with a delay of 60 seconds.
\<close>

theorem primary_failure_alert_and_retry:
  assumes "instances w c = Some inst"
    and "nightscoutUrl (mergeSettings s) = Some url" and "url \<noteq> []" and "urlParses env"
    and "primaryFails env"
  shows "effects (fetchAndRender c s force env w) =
           effects w @ [HttpGet c url PropertiesEndpoint (secretOf (mergeSettings s)), ShowAlert c]
         \<and> instances (fetchAndRender c s force env w) =
             (instances w)(c \<mapsto> inst\<lparr>fetchTimeout := Some (nextHandle w)\<rparr>)
         \<and> map_option lastResponse (instances (fetchAndRender c s force env w) c) = Some (lastResponse inst)
         \<and> timers (fetchAndRender c s force env w) =
             timers (cleared inst w)
               @ [(nextHandle w, \<lparr>tm_callback = CallFetchAndRender c s, tm_delay = 60000\<rparr>)]"
  unfolding fetchAndRender_primary_fails [OF assms]
  using assms(1) by (simp add: onFetchError_simps emit_simps cleared_simps)

text \<open>The primary endpoint answers 500 for a key that holds a snapshot.\<close>

theorem primary_failure_alert_and_retry_witness:
  "instances liveWorld ''key1'' = Some liveInstance
   \<and> nightscoutUrl (mergeSettings urlPayload) = Some ''https://ns.example''
   \<and> ''https://ns.example'' \<noteq> [] \<and> urlParses env500 \<and> primaryFails env500
   \<and> primary env500 = Resolved 500 None
   \<and> effects (fetchAndRender ''key1'' urlPayload False env500 liveWorld) =
        [HttpGet ''key1'' ''https://ns.example'' PropertiesEndpoint None, ShowAlert ''key1'']
   \<and> map_option lastResponse (instances (fetchAndRender ''key1'' urlPayload False env500 liveWorld) ''key1'')
        = Some (Some (readingOnly 100))
   \<and> timers (fetchAndRender ''key1'' urlPayload False env500 liveWorld) =
        [(2, \<lparr>tm_callback = CallFetchAndRender ''key1'' urlPayload, tm_delay = 60000\<rparr>)]"
proof -
  have h1: "instances liveWorld ''key1'' = Some liveInstance"
    by (simp add: liveWorld_def)
  have h2: "nightscoutUrl (mergeSettings urlPayload) = Some ''https://ns.example''"
    by (simp add: mergeSettings_def urlPayload_def emptyPayload_def)
  have h3: "''https://ns.example'' \<noteq> []" by simp
  have h4: "urlParses env500" by (simp add: env500_def)
  have h5: "primaryFails env500" by (simp add: primaryFails_def env500_def ok_def)
  have h6: "primary env500 = Resolved 500 None" by (simp add: env500_def)
  have s: "secretOf (mergeSettings urlPayload) = None"
    by (simp add: secretOf_def mergeSettings_def urlPayload_def emptyPayload_def)
  have e: "effects liveWorld = []" "nextHandle liveWorld = 2"
    by (simp_all add: liveWorld_def)
  have l: "lastResponse liveInstance = Some (readingOnly 100)"
    by (simp add: liveInstance_def)
  have t: "timers (cleared liveInstance liveWorld) = []"
    by (simp add: cleared_simps liveWorld_def liveInstance_def)
  note primary_failure_alert_and_retry [OF h1 h2 h3 h4 h5, of False]
  then show ?thesis using h1 h2 h3 h4 h5 h6 by (simp add: s e l t)
qed

text \<open>
  Claim C3, as amended. When the primary request succeeds and the history request
  answers with a status that is not OK, the failure is tolerated silently: the history
  stored before is kept, the image is rendered, no alert is shown, and the next fetch
  is scheduled by the normal policy, at most 30 seconds ahead.
\<close>

theorem history_not_ok_tolerated:
  assumes "instances w c = Some inst"
    and "nightscoutUrl (mergeSettings s) = Some url" and "url \<noteq> []" and "urlParses env"
    and "primary env = Resolved status (Some data)" and "ok status"
    and "history env = Resolved hstatus hbody" and "\<not> ok hstatus"
  shows "instances (fetchAndRender c s force env w) =
           (instances w)(c \<mapsto> inst\<lparr>lastResponse := Some data,
                                     renderTimeout := Some (nextHandle w),
                                     fetchTimeout := Some (Suc (nextHandle w))\<rparr>)
         \<and> map_option lastEntries (instances (fetchAndRender c s force env w) c) = Some (lastEntries inst)
         \<and> effects (fetchAndRender c s force env w) =
             effects w
               @ [HttpGet c url PropertiesEndpoint (secretOf (mergeSettings s)),
                  HttpGet c url (EntriesEndpoint \<lceil>(graphHours (mergeSettings s) * 60) / 5\<rceil>)
                    (secretOf (mergeSettings s)),
                  SetImage c (svgContent (inst\<lparr>lastResponse := Some data\<rparr>) data (mergeSettings s)
                                (renderNow env))]
         \<and> ShowAlert c \<notin> set (drop (length (effects w)) (effects (fetchAndRender c s force env w)))
         \<and> timers (fetchAndRender c s force env w) =
             timers (cleared inst w)
               @ [(nextHandle w,
                   \<lparr>tm_callback = CallRender c (asPayload (mergeSettings s)), tm_delay = 60000\<rparr>),
                  (Suc (nextHandle w),
                   \<lparr>tm_callback = CallFetchAndRender c s,
                     tm_delay = nextSleepMs data (scheduleNow env)\<rparr>)]
         \<and> nextSleepMs data (scheduleNow env) \<le> 30000"
proof -
  define n where "n = \<lceil>(graphHours (mergeSettings s) * 60) / 5\<rceil>"
  define sec where "sec = secretOf (mergeSettings s)"
  define w4 where "w4 = emit (HttpGet c url (EntriesEndpoint n) sec)
                (updInstance c (\<lambda>i. i\<lparr>lastResponse := Some data\<rparr>)
                   (emit (HttpGet c url PropertiesEndpoint sec) (cleared inst w)))"
  have eq: "fetchAndRender c s force env w = renderAndSchedule c s (mergeSettings s) data env w4"
    unfolding w4_def n_def sec_def by (rule fetchAndRender_history_tolerated [OF assms])
  have i4: "instances w4 c = Some (inst\<lparr>lastResponse := Some data\<rparr>)"
    using assms(1) by (simp add: w4_def prim_simps cleared_simps)
  have l4: "lastResponse (inst\<lparr>lastResponse := Some data\<rparr>) = Some data"
    by simp
  have m4: "instances w4 = (instances w)(c \<mapsto> inst\<lparr>lastResponse := Some data\<rparr>)"
    using assms(1) by (simp add: w4_def prim_simps cleared_simps)
  have e4: "effects w4 = effects w @ [HttpGet c url PropertiesEndpoint sec, HttpGet c url (EntriesEndpoint n) sec]"
    by (simp add: w4_def prim_simps cleared_simps)
  have t4: "timers w4 = timers (cleared inst w)"
    by (simp add: w4_def prim_simps)
  have n4: "nextHandle w4 = nextHandle w"
    by (simp add: w4_def prim_simps cleared_simps)
  have f: "filter (\<lambda>p. Some (fst p) \<noteq> renderTimeout (inst\<lparr>lastResponse := Some data\<rparr>)) (timers (cleared inst w))
             = timers (cleared inst w)"
    by (simp add: cleared_simps)
  note r = renderAndSchedule_simps [OF i4 l4, of s "mergeSettings s" data env]
  have 1: "instances (fetchAndRender c s force env w) =
           (instances w)(c \<mapsto> inst\<lparr>lastResponse := Some data,
                                     renderTimeout := Some (nextHandle w),
                                     fetchTimeout := Some (Suc (nextHandle w))\<rparr>)"
    unfolding eq r(3) m4 n4 by simp
  have 2: "map_option lastEntries (instances (fetchAndRender c s force env w) c) = Some (lastEntries inst)"
    unfolding 1 by simp
  have 3: "effects (fetchAndRender c s force env w) =
             effects w
               @ [HttpGet c url PropertiesEndpoint sec, HttpGet c url (EntriesEndpoint n) sec,
                  SetImage c (svgContent (inst\<lparr>lastResponse := Some data\<rparr>) data (mergeSettings s)
                                (renderNow env))]"
    unfolding eq r(1) e4 by simp
  have 4: "ShowAlert c \<notin> set (drop (length (effects w)) (effects (fetchAndRender c s force env w)))"
    unfolding 3 by simp
  have 5: "timers (fetchAndRender c s force env w) =
             timers (cleared inst w)
               @ [(nextHandle w,
                   \<lparr>tm_callback = CallRender c (asPayload (mergeSettings s)), tm_delay = 60000\<rparr>),
                  (Suc (nextHandle w),
                   \<lparr>tm_callback = CallFetchAndRender c s,
                     tm_delay = nextSleepMs data (scheduleNow env)\<rparr>)]"
    unfolding eq r(2) t4 n4 f by simp
  show ?thesis
    using 1 2 3 4 5 nextSleepMs_le [of data "scheduleNow env"] unfolding n_def sec_def by blast
qed


text \<open>The history endpoint answers 503 after a successful primary request.\<close>

theorem history_not_ok_tolerated_witness:
  "instances liveWorld ''key1'' = Some liveInstance
   \<and> nightscoutUrl (mergeSettings urlPayload) = Some ''https://ns.example''
   \<and> ''https://ns.example'' \<noteq> []
   \<and> urlParses (envOk (readingOnly 120) (Resolved 503 None) 1000)
   \<and> primary (envOk (readingOnly 120) (Resolved 503 None) 1000) = Resolved 200 (Some (readingOnly 120))
   \<and> ok 200
   \<and> history (envOk (readingOnly 120) (Resolved 503 None) 1000) = Resolved 503 None
   \<and> \<not> ok 503
   \<and> map_option lastEntries
        (instances (fetchAndRender ''key1'' urlPayload False
                      (envOk (readingOnly 120) (Resolved 503 None) 1000) liveWorld) ''key1'')
        = Some (Some [sample 100 0])
   \<and> ShowAlert ''key1'' \<notin> set (effects (fetchAndRender ''key1'' urlPayload False
                      (envOk (readingOnly 120) (Resolved 503 None) 1000) liveWorld))
   \<and> map (tm_delay \<circ> snd) (timers (fetchAndRender ''key1'' urlPayload False
                      (envOk (readingOnly 120) (Resolved 503 None) 1000) liveWorld))
        = [60000, 30000]"
proof -
  let ?env = "envOk (readingOnly 120) (Resolved 503 None) 1000"
  have h1: "instances liveWorld ''key1'' = Some liveInstance"
    by (simp add: liveWorld_def)
  have h2: "nightscoutUrl (mergeSettings urlPayload) = Some ''https://ns.example''"
    by (simp add: mergeSettings_def urlPayload_def emptyPayload_def)
  have h3: "''https://ns.example'' \<noteq> []" by simp
  have h4: "urlParses ?env" by (simp add: envOk_def)
  have h5: "primary ?env = Resolved 200 (Some (readingOnly 120))" by (simp add: envOk_def)
  have h6: "ok 200" by (simp add: ok_def)
  have h7: "history ?env = Resolved 503 None" by (simp add: envOk_def)
  have h8: "\<not> ok 503" by (simp add: ok_def)
  have e: "effects liveWorld = []" "nextHandle liveWorld = 2"
    by (simp_all add: liveWorld_def)
  have l: "lastEntries liveInstance = Some [sample 100 0]"
    by (simp add: liveInstance_def)
  have t: "timers (cleared liveInstance liveWorld) = []"
    by (simp add: cleared_simps liveWorld_def liveInstance_def)
  have d: "nextSleepMs (readingOnly 120) (scheduleNow ?env) = 30000"
    by (simp add: nextSleepMs_def firstBucket_def readingOnly_def)
  note th = history_not_ok_tolerated [OF h1 h2 h3 h4 h5 h6 h7 h8, of False]
  from th have a: "map_option lastEntries (instances (fetchAndRender ''key1'' urlPayload False ?env liveWorld) ''key1'')
        = Some (Some [sample 100 0])"
    by (simp add: l)
  from th have b: "ShowAlert ''key1'' \<notin> set (effects (fetchAndRender ''key1'' urlPayload False ?env liveWorld))"
    by (simp add: e)
  from th have c: "map (tm_delay \<circ> snd) (timers (fetchAndRender ''key1'' urlPayload False ?env liveWorld))
        = [60000, 30000]"
    by (simp add: t d)
  show ?thesis using h1 h2 h3 h4 h5 h6 h7 h8 a b c by blast
qed

text \<open>
  Claim C3 as stated fails for a transport error: when the history request is rejected
  after a successful primary request, the alert is shown and the only pending timer is
  the retry after 60 seconds.
\<close>

theorem history_rejected_counterexample:
  "effects (fetchAndRender ''key1'' urlPayload False envHistoryRejected liveWorld) =
     [HttpGet ''key1'' ''https://ns.example'' PropertiesEndpoint None,
      HttpGet ''key1'' ''https://ns.example'' (EntriesEndpoint 96) None,
      ShowAlert ''key1'']
   \<and> timers (fetchAndRender ''key1'' urlPayload False envHistoryRejected liveWorld) =
       [(2, \<lparr>tm_callback = CallFetchAndRender ''key1'' urlPayload, tm_delay = 60000\<rparr>)]"
proof -
  have h1: "instances liveWorld ''key1'' = Some liveInstance"
    by (simp add: liveWorld_def)
  have h2: "nightscoutUrl (mergeSettings urlPayload) = Some ''https://ns.example''"
    by (simp add: mergeSettings_def urlPayload_def emptyPayload_def)
  have h4: "urlParses envHistoryRejected" by (simp add: envHistoryRejected_def envOk_def)
  have h5: "primary envHistoryRejected = Resolved 200 (Some (readingOnly 120))"
    by (simp add: envHistoryRejected_def envOk_def)
  have h6: "ok 200" by (simp add: ok_def)
  have h7: "history envHistoryRejected = Rejected \<or>
             (\<exists>hstatus. ok hstatus \<and> history envHistoryRejected = Resolved hstatus None)"
    by (simp add: envHistoryRejected_def envOk_def)
  have s: "secretOf (mergeSettings urlPayload) = None"
    by (simp add: secretOf_def mergeSettings_def urlPayload_def emptyPayload_def)
  have g: "\<lceil>(graphHours (mergeSettings urlPayload) * 60) / 5\<rceil> = 96"
    by (simp add: mergeSettings_def urlPayload_def emptyPayload_def orDefault_def DEFAULT_SETTINGS_def)
  have e: "effects liveWorld = []" "nextHandle liveWorld = 2"
    by (simp_all add: liveWorld_def)
  have t: "timers (cleared liveInstance liveWorld) = []"
    by (simp add: cleared_simps liveWorld_def liveInstance_def)
  have g8: "graphHours (mergeSettings urlPayload) = 8"
    by (simp add: mergeSettings_def urlPayload_def emptyPayload_def orDefault_def DEFAULT_SETTINGS_def)
  have F: "fetchAndRender ''key1'' urlPayload False envHistoryRejected liveWorld =
           onFetchError ''key1'' urlPayload
             (emit (HttpGet ''key1'' ''https://ns.example'' (EntriesEndpoint 96) None)
                (updInstance ''key1'' (\<lambda>i. i\<lparr>lastResponse := Some (readingOnly 120)\<rparr>)
                   (emit (HttpGet ''key1'' ''https://ns.example'' PropertiesEndpoint None)
                      (cleared liveInstance liveWorld))))"
    using fetchAndRender_history_throws [OF h1 h2 _ h4 h5 h6 h7, of False] by (simp add: s g8)
  show ?thesis
    unfolding F by (simp add: onFetchError_simps prim_simps cleared_simps(1,3,4) e t)
qed

lemma fetchAndRender_success:
  assumes "instances w c = Some inst"
    and "nightscoutUrl (mergeSettings s) = Some url" and "url \<noteq> []" and "urlParses env"
    and "primary env = Resolved status (Some data)" and "ok status"
    and "history env = Resolved hstatus hbody" and "ok hstatus \<longrightarrow> hbody \<noteq> None"
  shows "\<exists>w4 i4. fetchAndRender c s force env w = renderAndSchedule c s (mergeSettings s) data env w4
           \<and> instances w4 c = Some i4 \<and> lastResponse i4 = Some data
           \<and> nextHandle w4 = nextHandle w"
proof -
  define w2 where "w2 = updInstance c (\<lambda>i. i\<lparr>lastResponse := Some data\<rparr>)
                   (emit (HttpGet c url PropertiesEndpoint (secretOf (mergeSettings s)))
                      (cleared inst w))"
  define w3 where "w3 = emit (HttpGet c url (EntriesEndpoint \<lceil>(graphHours (mergeSettings s) * 60) / 5\<rceil>)
                      (secretOf (mergeSettings s))) w2"
  have i3: "instances w3 c = Some (inst\<lparr>lastResponse := Some data\<rparr>)"
    and n3: "nextHandle w3 = nextHandle w"
    using assms(1) by (simp_all add: w3_def w2_def prim_simps cleared_simps)
  show ?thesis
  proof (cases "ok hstatus")
    case False
    have "fetchAndRender c s force env w = renderAndSchedule c s (mergeSettings s) data env w3"
      unfolding w3_def w2_def by (rule fetchAndRender_history_tolerated [OF assms(1-7) False])
    with i3 n3 show ?thesis by force
  next
    case True
    with assms(8) obtain es where es: "hbody = Some es" by auto
    define w4 where "w4 = updInstance c (\<lambda>i. i\<lparr>lastEntries := Some es\<rparr>) w3"
    have i4: "instances w4 c = Some (inst\<lparr>lastResponse := Some data, lastEntries := Some es\<rparr>)"
      and n4: "nextHandle w4 = nextHandle w"
      using i3 n3 by (simp_all add: w4_def prim_simps)
    have "fetchAndRender c s force env w = renderAndSchedule c s (mergeSettings s) data env w4"
      unfolding w4_def w3_def w2_def
      by (rule fetchAndRender_history_stored [OF assms(1-6) assms(7) [unfolded es] True])
    with i4 n4 show ?thesis by force
  qed
qed

text \<open>
  Claim C2, as amended. After a successful fetch the next fetch is scheduled with the
  default delay of 30 seconds unless the snapshot has a first bucket and a non-zero
  reading timestamp; then the arrival of the next reading is estimated as the reading
  timestamp plus the duration of the bucket plus 15 seconds, and if the estimate is
  strictly in the future and less than 5 minutes away the delay is the minimum of the
  time until the estimate and 30 seconds; otherwise the default applies.
\<close>

theorem next_fetch_delay:
  assumes "instances w c = Some inst"
    and "nightscoutUrl (mergeSettings s) = Some url" and "url \<noteq> []" and "urlParses env"
    and "primary env = Resolved status (Some data)" and "ok status"
    and "history env = Resolved hstatus hbody" and "ok hstatus \<longrightarrow> hbody \<noteq> None"
  shows "last (timers (fetchAndRender c s force env w)) =
           (Suc (nextHandle w),
            \<lparr>tm_callback = CallFetchAndRender c s, tm_delay = nextSleepMs data (scheduleNow env)\<rparr>)
         \<and> map_option fetchTimeout (instances (fetchAndRender c s force env w) c)
             = Some (Some (Suc (nextHandle w)))
         \<and> (firstBucket data = None \<or> getMills data = None \<or> getMills data = Some 0
              \<longrightarrow> nextSleepMs data (scheduleNow env) = 30000)
         \<and> (\<forall>b m. firstBucket data = Some b \<and> getMills data = Some m \<and> m \<noteq> 0 \<longrightarrow>
               nextRead b m = m + (toMills b - fromMills b) + 15000
               \<and> (scheduleNow env < nextRead b m \<and> nextRead b m - scheduleNow env < 300000
                    \<longrightarrow> nextSleepMs data (scheduleNow env) = min (nextRead b m - scheduleNow env) 30000)
               \<and> (nextRead b m \<le> scheduleNow env \<or> 300000 \<le> nextRead b m - scheduleNow env
                    \<longrightarrow> nextSleepMs data (scheduleNow env) = 30000))"
proof -
  obtain w4 i4 where eq: "fetchAndRender c s force env w = renderAndSchedule c s (mergeSettings s) data env w4"
    and i4: "instances w4 c = Some i4" and l4: "lastResponse i4 = Some data"
    and n4: "nextHandle w4 = nextHandle w"
    using fetchAndRender_success [OF assms] by blast
  note r = renderAndSchedule_simps [OF i4 l4, of s "mergeSettings s" data env]
  have 1: "last (timers (fetchAndRender c s force env w)) =
           (Suc (nextHandle w),
            \<lparr>tm_callback = CallFetchAndRender c s, tm_delay = nextSleepMs data (scheduleNow env)\<rparr>)"
    unfolding eq r(2) n4 by simp
  have 2: "map_option fetchTimeout (instances (fetchAndRender c s force env w) c)
             = Some (Some (Suc (nextHandle w)))"
    unfolding eq r(3) n4 by simp
  have 3: "firstBucket data = None \<or> getMills data = None \<or> getMills data = Some 0
              \<longrightarrow> nextSleepMs data (scheduleNow env) = 30000"
    by (auto simp add: nextSleepMs_def split: option.split)
  have 4: "\<forall>b m. firstBucket data = Some b \<and> getMills data = Some m \<and> m \<noteq> 0 \<longrightarrow>
               nextRead b m = m + (toMills b - fromMills b) + 15000
               \<and> (scheduleNow env < nextRead b m \<and> nextRead b m - scheduleNow env < 300000
                    \<longrightarrow> nextSleepMs data (scheduleNow env) = min (nextRead b m - scheduleNow env) 30000)
               \<and> (nextRead b m \<le> scheduleNow env \<or> 300000 \<le> nextRead b m - scheduleNow env
                    \<longrightarrow> nextSleepMs data (scheduleNow env) = 30000)"
    by (auto simp add: nextSleepMs_def nextRead_def Let_def)
  show ?thesis using 1 2 3 4 by blast
qed

text \<open>
  Claim C2 as stated fails: with a bucket from 0 to 300000 the estimate taken from the
  end of the bucket is 20 seconds ahead of 595000, yet for a reading taken at 150000,
  the middle of the bucket, the estimate of the code lies in the past and it waits the
  default 30 seconds.
\<close>

theorem bucket_end_estimate_counterexample:
  "firstBucket (bucketSnapshot 150000) = Some \<lparr> fromMills = 0, toMills = 300000 \<rparr>
   \<and> getMills (bucketSnapshot 150000) = Some 150000
   \<and> specEstimate \<lparr> fromMills = 0, toMills = 300000 \<rparr> - 595000 = 20000
   \<and> specDelay (bucketSnapshot 150000) 595000 = 20000
   \<and> nextSleepMs (bucketSnapshot 150000) 595000 = 30000"
  by (simp add: firstBucket_def bucketSnapshot_def specEstimate_def specDelay_def nextSleepMs_def
        nextRead_def getMills_def Let_def)

text \<open>
  An estimate 20 seconds ahead gives a delay of 20 seconds; 10 minutes ahead and in
  the past give 30 seconds.
\<close>

theorem next_fetch_delay_witness:
  "instances liveWorld ''key1'' = Some liveInstance
   \<and> nightscoutUrl (mergeSettings urlPayload) = Some ''https://ns.example''
   \<and> ''https://ns.example'' \<noteq> []
   \<and> urlParses (envOk (bucketSnapshot 705000) (Resolved 503 None) 1000000)
   \<and> primary (envOk (bucketSnapshot 705000) (Resolved 503 None) 1000000)
        = Resolved 200 (Some (bucketSnapshot 705000))
   \<and> ok 200
   \<and> history (envOk (bucketSnapshot 705000) (Resolved 503 None) 1000000) = Resolved 503 None
   \<and> \<not> ok 503
   \<and> nextRead \<lparr> fromMills = 0, toMills = 300000 \<rparr> 705000 = 1000000 + 20000
   \<and> last (timers (fetchAndRender ''key1'' urlPayload False
                      (envOk (bucketSnapshot 705000) (Resolved 503 None) 1000000) liveWorld))
        = (3, \<lparr>tm_callback = CallFetchAndRender ''key1'' urlPayload, tm_delay = 20000\<rparr>)
   \<and> nextRead \<lparr> fromMills = 0, toMills = 300000 \<rparr> 1285000 = 1000000 + 600000
   \<and> nextSleepMs (bucketSnapshot 1285000) 1000000 = 30000
   \<and> nextRead \<lparr> fromMills = 0, toMills = 300000 \<rparr> 100000 = 415000
   \<and> nextSleepMs (bucketSnapshot 100000) 1000000 = 30000"
proof -
  let ?env = "envOk (bucketSnapshot 705000) (Resolved 503 None) 1000000"
  have h1: "instances liveWorld ''key1'' = Some liveInstance"
    by (simp add: liveWorld_def)
  have h2: "nightscoutUrl (mergeSettings urlPayload) = Some ''https://ns.example''"
    by (simp add: mergeSettings_def urlPayload_def emptyPayload_def)
  have h3: "''https://ns.example'' \<noteq> []" by simp
  have h4: "urlParses ?env" by (simp add: envOk_def)
  have h5: "primary ?env = Resolved 200 (Some (bucketSnapshot 705000))" by (simp add: envOk_def)
  have h6: "ok 200" by (simp add: ok_def)
  have h7: "history ?env = Resolved 503 None" by (simp add: envOk_def)
  have h8: "\<not> ok 503" by (simp add: ok_def)
  have h8': "ok 503 \<longrightarrow> (None :: NightscoutEntry list option) \<noteq> None" using h8 by simp
  have n: "nextHandle liveWorld = 2" "scheduleNow ?env = 1000000"
    by (simp_all add: liveWorld_def envOk_def)
  have b: "firstBucket (bucketSnapshot m) = Some \<lparr> fromMills = 0, toMills = 300000 \<rparr>"
    "getMills (bucketSnapshot m) = Some m" for m
    by (simp_all add: firstBucket_def getMills_def bucketSnapshot_def)
  have r: "nextRead \<lparr> fromMills = 0, toMills = 300000 \<rparr> m = m + 315000" for m
    by (simp add: nextRead_def)
  note th = next_fetch_delay [OF h1 h2 h3 h4 h5 h6 h7 h8', of False]
  from th have d: "nextSleepMs (bucketSnapshot 705000) (scheduleNow ?env) = 20000"
    using b [of 705000] by (simp add: r n)
  from th have a: "last (timers (fetchAndRender ''key1'' urlPayload False ?env liveWorld))
        = (3, \<lparr>tm_callback = CallFetchAndRender ''key1'' urlPayload, tm_delay = 20000\<rparr>)"
    using d by (simp add: n)
  have c1: "nextSleepMs (bucketSnapshot 1285000) 1000000 = 30000"
    by (simp add: nextSleepMs_def b r)
  have c2: "nextSleepMs (bucketSnapshot 100000) 1000000 = 30000"
    by (simp add: nextSleepMs_def b r)
  show ?thesis using h1 h2 h3 h4 h5 h6 h7 h8 a c1 c2 by (simp add: r)
qed

lemma render_effects:
  "effects (render c s now w) = effects w
   \<or> (\<exists>img. effects (render c s now w) = effects w @ [SetImage c img])"
  by (auto simp add: render_def Let_def split_def prim_simps split: option.split)

lemma renderAndSchedule_effects:
  "effects (renderAndSchedule c s ms data env w) = effects w
   \<or> (\<exists>img. effects (renderAndSchedule c s ms data env w) = effects w @ [SetImage c img])"
  using render_effects [of c "asPayload ms" "renderNow env" w]
  by (simp add: renderAndSchedule_def Let_def split_def prim_simps)

lemma renderAndSchedule_prefix:
  assumes "effects w' = effects w @ e # pre"
  shows "\<exists>rest. effects (renderAndSchedule c s ms d env w') = effects w @ e # rest"
  using renderAndSchedule_effects [of c s ms d env w'] assms by auto

lemma fetchAndRender_starts_with_request:
  assumes "instances w c = Some inst"
    and "nightscoutUrl (mergeSettings s) = Some url" and "url \<noteq> []" and "urlParses env"
  shows "\<exists>rest. effects (fetchAndRender c s force env w) =
           effects w @ HttpGet c url PropertiesEndpoint (secretOf (mergeSettings s)) # rest"
proof (cases "primaryFails env")
  case True
  show ?thesis
    unfolding fetchAndRender_primary_fails [OF assms True]
    by (simp add: onFetchError_simps prim_simps cleared_simps)
next
  case False
  then obtain status data where p: "primary env = Resolved status (Some data)" and o: "ok status"
    by (auto simp add: primaryFails_def split: FetchOutcome.splits)
  consider (throws) "history env = Rejected \<or> (\<exists>hstatus. ok hstatus \<and> history env = Resolved hstatus None)"
    | (tolerated) hstatus hbody where "history env = Resolved hstatus hbody" "\<not> ok hstatus"
    | (stored) hstatus es where "history env = Resolved hstatus (Some es)" "ok hstatus"
    by (cases "history env") (auto, metis option.exhaust)
  then show ?thesis
  proof cases
    case throws
    show ?thesis
      unfolding fetchAndRender_history_throws [OF assms p o throws]
      by (simp add: onFetchError_simps prim_simps cleared_simps)
  next
    case tolerated
    show ?thesis
      unfolding fetchAndRender_history_tolerated [OF assms p o tolerated]
      by (rule renderAndSchedule_prefix) (simp add: prim_simps cleared_simps)
  next
    case stored
    show ?thesis
      unfolding fetchAndRender_history_stored [OF assms p o stored]
      by (rule renderAndSchedule_prefix) (simp add: prim_simps cleared_simps)
  qed
qed

lemma updInstance_present:
  "instances w c = Some i \<Longrightarrow> updInstance c f w = w\<lparr>instances := (instances w)(c \<mapsto> f i)\<rparr>"
  by (simp add: updInstance_def)

text \<open>
  Claim C7. On a key release with a recorded press, a hold of at least 500 ms calls
  \<open>fetchAndRender\<close> with \<open>forceRefresh\<close> set, which issues the primary request when a
  URL is configured; a shorter hold toggles the display mode and calls \<open>render\<close>, with
  no request issued. A release without a recorded press changes nothing. A press is
  recorded by a non-zero clock reading.
\<close>

theorem key_release_classification:
  assumes "instances w c = Some inst"
  shows "(keyDownTime inst = None \<longrightarrow> onKeyUp c s now env w = w)
    \<and> (\<forall>t. keyDownTime inst = Some t \<and> t \<noteq> 0 \<and> now - t \<ge> 500 \<longrightarrow>
          onKeyUp c s now env w =
            fetchAndRender c s True env
              (w\<lparr>instances := (instances w)(c \<mapsto> inst\<lparr>keyDownTime := None\<rparr>)\<rparr>)
          \<and> (\<forall>url. nightscoutUrl (mergeSettings s) = Some url \<and> url \<noteq> [] \<and> urlParses env \<longrightarrow>
                (\<exists>rest. effects (onKeyUp c s now env w) =
                   effects w @ HttpGet c url PropertiesEndpoint (secretOf (mergeSettings s)) # rest)))
    \<and> (\<forall>t. keyDownTime inst = Some t \<and> t \<noteq> 0 \<and> now - t < 500 \<longrightarrow>
          onKeyUp c s now env w =
            render c s (renderNow env)
              (w\<lparr>instances := (instances w)
                   (c \<mapsto> inst\<lparr>keyDownTime := None, displayMode := toggleMode (displayMode inst)\<rparr>)\<rparr>)
          \<and> map_option displayMode (instances (onKeyUp c s now env w) c)
               = Some (toggleMode (displayMode inst))
          \<and> filter isHttpGet (effects (onKeyUp c s now env w)) = filter isHttpGet (effects w))
    \<and> toggleMode NUMBER = GRAPH \<and> toggleMode GRAPH = NUMBER"
proof -
  let ?w1 = "w\<lparr>instances := (instances w)(c \<mapsto> inst\<lparr>keyDownTime := None\<rparr>)\<rparr>"
  let ?w2 = "w\<lparr>instances := (instances w)
                   (c \<mapsto> inst\<lparr>keyDownTime := None, displayMode := toggleMode (displayMode inst)\<rparr>)\<rparr>"
  have u1: "updInstance c (\<lambda>i. i\<lparr>keyDownTime := None\<rparr>) w = ?w1"
    using assms by (simp add: updInstance_def)
  have u2: "updInstance c (\<lambda>i. i\<lparr>displayMode := toggleMode (displayMode i)\<rparr>) ?w1 = ?w2"
    by (simp add: updInstance_def)
  have 1: "keyDownTime inst = None \<longrightarrow> onKeyUp c s now env w = w"
    using assms by (simp add: onKeyUp_def)
  have long: "onKeyUp c s now env w = fetchAndRender c s True env ?w1"
    if "keyDownTime inst = Some t" "t \<noteq> 0" "now - t \<ge> 500" for t
    using assms that by (simp add: onKeyUp_def Let_def LONG_PRESS_DURATION_def u1)
  have short: "onKeyUp c s now env w = render c s (renderNow env) ?w2"
    if "keyDownTime inst = Some t" "t \<noteq> 0" "now - t < 500" for t
    using assms that by (simp add: onKeyUp_def Let_def LONG_PRESS_DURATION_def u1 u2)
  have i1: "instances ?w1 c = Some (inst\<lparr>keyDownTime := None\<rparr>)" by simp
  have e1: "effects ?w1 = effects w" by simp
  have long_fx: "\<exists>rest. effects (fetchAndRender c s True env ?w1) =
                   effects w @ HttpGet c url PropertiesEndpoint (secretOf (mergeSettings s)) # rest"
    if "nightscoutUrl (mergeSettings s) = Some url" "url \<noteq> []" "urlParses env" for url
    using fetchAndRender_starts_with_request [OF i1 that, of True] unfolding e1 .
  have i2: "instances ?w2 c =
              Some (inst\<lparr>keyDownTime := None, displayMode := toggleMode (displayMode inst)\<rparr>)"
    by simp
  have short_mode: "map_option displayMode (instances (render c s (renderNow env) ?w2) c)
               = Some (toggleMode (displayMode inst))"
  proof (cases "lastResponse inst")
    case None
    then show ?thesis using render_noop(2) [OF i2, of s "renderNow env"] by simp
  next
    case (Some data)
    then have "lastResponse (inst\<lparr>keyDownTime := None, displayMode := toggleMode (displayMode inst)\<rparr>)
                 = Some data" by simp
    from render_simps(3) [OF i2 this, of s "renderNow env"] show ?thesis by simp
  qed
  have short_fx: "filter isHttpGet (effects (render c s (renderNow env) ?w2)) = filter isHttpGet (effects w)"
    using render_effects [of c s "renderNow env" ?w2] by (auto simp add: isHttpGet_def)
  have 2: "\<forall>t. keyDownTime inst = Some t \<and> t \<noteq> 0 \<and> now - t \<ge> 500 \<longrightarrow>
          onKeyUp c s now env w = fetchAndRender c s True env ?w1
          \<and> (\<forall>url. nightscoutUrl (mergeSettings s) = Some url \<and> url \<noteq> [] \<and> urlParses env \<longrightarrow>
                (\<exists>rest. effects (onKeyUp c s now env w) =
                   effects w @ HttpGet c url PropertiesEndpoint (secretOf (mergeSettings s)) # rest))"
    using long long_fx by simp
  have 3: "\<forall>t. keyDownTime inst = Some t \<and> t \<noteq> 0 \<and> now - t < 500 \<longrightarrow>
          onKeyUp c s now env w = render c s (renderNow env) ?w2
          \<and> map_option displayMode (instances (onKeyUp c s now env w) c)
               = Some (toggleMode (displayMode inst))
          \<and> filter isHttpGet (effects (onKeyUp c s now env w)) = filter isHttpGet (effects w)"
    using short short_mode short_fx by simp
  have 4: "toggleMode NUMBER = GRAPH \<and> toggleMode GRAPH = NUMBER"
    by (simp add: toggleMode_def)
  show ?thesis using 1 2 3 4 by blast
qed

text \<open>A press at 1000 released at 1499 toggles; released at 1500 it refreshes.\<close>

theorem key_release_classification_witness:
  "instances pressedWorld ''key1'' = Some (liveInstance\<lparr>keyDownTime := Some 1000\<rparr>)
   \<and> keyDownTime (liveInstance\<lparr>keyDownTime := Some 1000\<rparr>) = Some 1000 \<and> (1000::real) \<noteq> 0
   \<and> (1499::real) - 1000 < 500 \<and> (1500::real) - 1000 \<ge> 500
   \<and> map_option displayMode (instances (onKeyUp ''key1'' urlPayload 1499 env500 pressedWorld) ''key1'')
        = Some GRAPH
   \<and> filter isHttpGet (effects (onKeyUp ''key1'' urlPayload 1499 env500 pressedWorld)) = []
   \<and> onKeyUp ''key1'' urlPayload 1500 env500 pressedWorld =
        fetchAndRender ''key1'' urlPayload True env500
          (pressedWorld\<lparr>instances := (instances pressedWorld)
             (''key1'' \<mapsto> liveInstance\<lparr>keyDownTime := Some 1000, keyDownTime := None\<rparr>)\<rparr>)"
proof -
  have h: "instances pressedWorld ''key1'' = Some (liveInstance\<lparr>keyDownTime := Some 1000\<rparr>)"
    by (simp add: pressedWorld_def onKeyDown_def updInstance_def liveWorld_def)
  have k: "keyDownTime (liveInstance\<lparr>keyDownTime := Some 1000\<rparr>) = Some 1000" by simp
  have e: "effects pressedWorld = []"
    by (simp add: pressedWorld_def onKeyDown_def updInstance_simps liveWorld_def)
  have m: "toggleMode (displayMode (liveInstance\<lparr>keyDownTime := Some 1000\<rparr>)) = GRAPH"
    by (simp add: toggleMode_def liveInstance_def)
  note short = key_release_classification [OF h, of urlPayload 1499 env500]
  note long = key_release_classification [OF h, of urlPayload 1500 env500]
  have ar: "(1000::real) \<noteq> 0" "(1499::real) - 1000 < 500" "(1500::real) - 1000 \<ge> 500"
    by simp_all
  from short k ar have a': "map_option displayMode
        (instances (onKeyUp ''key1'' urlPayload 1499 env500 pressedWorld) ''key1'')
          = Some (toggleMode (displayMode (liveInstance\<lparr>keyDownTime := Some 1000\<rparr>)))"
    by blast
  have a: "map_option displayMode
        (instances (onKeyUp ''key1'' urlPayload 1499 env500 pressedWorld) ''key1'') = Some GRAPH"
    using a' unfolding m .
  from short k ar have b': "filter isHttpGet (effects (onKeyUp ''key1'' urlPayload 1499 env500 pressedWorld))
          = filter isHttpGet (effects pressedWorld)"
    by blast
  have b: "filter isHttpGet (effects (onKeyUp ''key1'' urlPayload 1499 env500 pressedWorld)) = []"
    using b' unfolding e by simp
  from long k ar have c: "onKeyUp ''key1'' urlPayload 1500 env500 pressedWorld =
        fetchAndRender ''key1'' urlPayload True env500
          (pressedWorld\<lparr>instances := (instances pressedWorld)
             (''key1'' \<mapsto> liveInstance\<lparr>keyDownTime := Some 1000, keyDownTime := None\<rparr>)\<rparr>)"
    by blast
  show ?thesis using h k ar a b c by blast
qed

subsection \<open>Timer discipline and teardown\<close>

lemma timerInv_iff:
  "timerInv w \<longleftrightarrow>
     distinct (map fst (timers w)) \<and> (\<forall>p \<in> set (timers w). fst p < nextHandle w \<and> heldBy w p)"
  by (simp add: timerInv_def list_all_iff)

lemma timerInv_initial: "timerInv initialWorld"
  by (simp add: timerInv_def initialWorld_def)

lemma same_handle_short:
  assumes "distinct (map fst xs)" and "\<forall>p \<in> set xs. fst p = h"
  shows "length xs \<le> 1"
proof (cases xs)
  case Nil
  then show ?thesis by simp
next
  case (Cons a ys)
  show ?thesis
  proof (cases ys)
    case Nil
    with Cons show ?thesis by simp
  next
    case (Cons b zs)
    with \<open>xs = a # ys\<close> assms have "fst a = h" "fst b = h" "fst a \<noteq> fst b" by auto
    then show ?thesis by simp
  qed
qed

lemma pendingFetch_held:
  assumes "timerInv w" and "p \<in> set (pendingFetch c w)"
  shows "\<exists>i. instances w c = Some i \<and> fetchTimeout i = Some (fst p)"
  using assms
  by (auto simp add: timerInv_iff pendingFetch_def heldBy_def split: option.splits)

lemma pendingRender_held:
  assumes "timerInv w" and "p \<in> set (pendingRender c w)"
  shows "\<exists>i. instances w c = Some i \<and> renderTimeout i = Some (fst p)"
  using assms
  by (auto simp add: timerInv_iff pendingRender_def heldBy_def split: option.splits)

lemma timerInv_at_most_one:
  assumes "timerInv w"
  shows "length (pendingFetch c w) \<le> 1 \<and> length (pendingRender c w) \<le> 1"
proof
  have d: "distinct (map fst (timers w))" using assms by (simp add: timerInv_iff)
  have df: "distinct (map fst (pendingFetch c w))"
    unfolding pendingFetch_def using d by (rule distinct_map_filter)
  have dr: "distinct (map fst (pendingRender c w))"
    unfolding pendingRender_def using d by (rule distinct_map_filter)
  show "length (pendingFetch c w) \<le> 1"
  proof (cases "instances w c")
    case None
    have "pendingFetch c w = []"
    proof (cases "pendingFetch c w")
      case (Cons p ps)
      then have "p \<in> set (pendingFetch c w)" by simp
      from pendingFetch_held [OF assms this] None show ?thesis by simp
    qed simp
    then show ?thesis by simp
  next
    case (Some i)
    have "\<forall>p \<in> set (pendingFetch c w). fst p = the (fetchTimeout i)"
    proof
      fix p assume "p \<in> set (pendingFetch c w)"
      from pendingFetch_held [OF assms this] Some show "fst p = the (fetchTimeout i)" by auto
    qed
    with df show ?thesis by (rule same_handle_short)
  qed
  show "length (pendingRender c w) \<le> 1"
  proof (cases "instances w c")
    case None
    have "pendingRender c w = []"
    proof (cases "pendingRender c w")
      case (Cons p ps)
      then have "p \<in> set (pendingRender c w)" by simp
      from pendingRender_held [OF assms this] None show ?thesis by simp
    qed simp
    then show ?thesis by simp
  next
    case (Some i)
    have "\<forall>p \<in> set (pendingRender c w). fst p = the (renderTimeout i)"
    proof
      fix p assume "p \<in> set (pendingRender c w)"
      from pendingRender_held [OF assms this] Some show "fst p = the (renderTimeout i)" by auto
    qed
    with dr show ?thesis by (rule same_handle_short)
  qed
qed

lemma heldBy_sameSlots:
  assumes "sameSlots w w'"
  shows "heldBy w' p = heldBy w p"
proof -
  from assms have e: "map_option slots (instances w' (timerTarget (snd p)))
                      = map_option slots (instances w (timerTarget (snd p)))"
    by (simp add: sameSlots_def)
  show ?thesis
  proof (cases "instances w (timerTarget (snd p))")
    case None
    with e show ?thesis by (simp add: heldBy_def)
  next
    case (Some i)
    with e obtain i' where i': "instances w' (timerTarget (snd p)) = Some i'" and "slots i' = slots i"
      by auto
    then have "fetchTimeout i' = fetchTimeout i" "renderTimeout i' = renderTimeout i"
      by (simp_all add: slots_def)
    with Some i' show ?thesis by (simp add: heldBy_def)
  qed
qed

lemma timerInv_shrink:
  assumes "timerInv w" and "timers w' = filter P (timers w)" and "sameSlots w w'"
    and "nextHandle w \<le> nextHandle w'"
  shows "timerInv w'"
  using assms(1,2,4)
  by (auto simp add: timerInv_iff heldBy_sameSlots [OF assms(3)] distinct_map_filter)

lemma sameSlots_refl: "instances w' = instances w \<Longrightarrow> sameSlots w w'"
  by (simp add: sameSlots_def)

lemma sameSlots_upd:
  assumes "\<And>i. slots (f i) = slots i"
  shows "sameSlots w (updInstance c f w)"
  using assms by (simp add: sameSlots_def updInstance_def split: option.split)

lemma timerInv_emit:
  assumes "timerInv w"
  shows "timerInv (emit e w)"
  using assms
  by (rule timerInv_shrink [where P = "\<lambda>_. True"]) (simp_all add: emit_simps sameSlots_refl)

lemma timerInv_clearTimeout:
  assumes "timerInv w"
  shows "timerInv (clearTimeout ho w)"
  using assms
  by (rule timerInv_shrink [where P = "\<lambda>p. Some (fst p) \<noteq> ho"])
     (simp_all add: clearTimeout_simps sameSlots_refl)

lemma timerInv_updInstance:
  assumes "timerInv w" and "\<And>i. slots (f i) = slots i"
  shows "timerInv (updInstance c f w)"
  using assms(1)
  by (rule timerInv_shrink [where P = "\<lambda>_. True"])
     (simp_all add: updInstance_simps sameSlots_upd [OF assms(2)])

lemma timerInv_arm_fetch:
  assumes "timerInv w" and "instances w c = Some i" and "pendingFetch c w = []"
    and "timers w' = timers w @ [(nextHandle w, \<lparr>tm_callback = CallFetchAndRender c s, tm_delay = ms\<rparr>)]"
    and "instances w' = (instances w)(c \<mapsto> i\<lparr>fetchTimeout := Some (nextHandle w)\<rparr>)"
    and "nextHandle w' = Suc (nextHandle w)"
  shows "timerInv w'"
proof -
  have old: "fst p < nextHandle w \<and> heldBy w p" if "p \<in> set (timers w)" for p
    using assms(1) that by (simp add: timerInv_iff)
  have nf: "\<not> (isFetchTimer (snd p) \<and> timerTarget (snd p) = c)" if "p \<in> set (timers w)" for p
    using assms(3) that by (auto simp add: pendingFetch_def filter_empty_conv)
  have keep: "heldBy w' p" if "p \<in> set (timers w)" for p
    using old [OF that] nf [OF that] assms(2)
    by (auto simp add: heldBy_def assms(5) split: option.splits if_splits)
  have new: "heldBy w' (nextHandle w, \<lparr>tm_callback = CallFetchAndRender c s, tm_delay = ms\<rparr>)"
    by (simp add: heldBy_def assms(5) timerTarget_def isFetchTimer_def)
  have "nextHandle w \<notin> fst ` set (timers w)"
    using old by force
  then have d: "distinct (map fst (timers w'))"
    using assms(1) by (simp add: assms(4) timerInv_iff)
  show ?thesis
    unfolding timerInv_iff
    using d old keep new by (auto simp add: assms(4) assms(6) less_Suc_eq)
qed

lemma timerInv_arm_render:
  assumes "timerInv w" and "instances w c = Some i" and "pendingRender c w = []"
    and "timers w' = timers w @ [(nextHandle w, \<lparr>tm_callback = CallRender c s, tm_delay = ms\<rparr>)]"
    and "instances w' = (instances w)(c \<mapsto> i\<lparr>renderTimeout := Some (nextHandle w)\<rparr>)"
    and "nextHandle w' = Suc (nextHandle w)"
  shows "timerInv w'"
proof -
  have old: "fst p < nextHandle w \<and> heldBy w p" if "p \<in> set (timers w)" for p
    using assms(1) that by (simp add: timerInv_iff)
  have nf: "\<not> (\<not> isFetchTimer (snd p) \<and> timerTarget (snd p) = c)" if "p \<in> set (timers w)" for p
    using assms(3) that by (auto simp add: pendingRender_def filter_empty_conv)
  have keep: "heldBy w' p" if "p \<in> set (timers w)" for p
    using old [OF that] nf [OF that] assms(2)
    by (auto simp add: heldBy_def assms(5) split: option.splits if_splits)
  have new: "heldBy w' (nextHandle w, \<lparr>tm_callback = CallRender c s, tm_delay = ms\<rparr>)"
    by (simp add: heldBy_def assms(5) timerTarget_def isFetchTimer_def)
  have "nextHandle w \<notin> fst ` set (timers w)"
    using old by force
  then have d: "distinct (map fst (timers w'))"
    using assms(1) by (simp add: assms(4) timerInv_iff)
  show ?thesis
    unfolding timerInv_iff
    using d old keep new by (auto simp add: assms(4) assms(6) less_Suc_eq)
qed

lemma clear_fetch_none:
  assumes "timerInv w" and "instances w c = Some i"
  shows "pendingFetch c (clearTimeout (fetchTimeout i) w) = []"
proof -
  have "\<not> (Some (fst p) \<noteq> fetchTimeout i \<and> isFetchTimer (snd p) \<and> timerTarget (snd p) = c)"
    if "p \<in> set (timers w)" for p
  proof
    assume a: "Some (fst p) \<noteq> fetchTimeout i \<and> isFetchTimer (snd p) \<and> timerTarget (snd p) = c"
    with that have "p \<in> set (pendingFetch c w)" by (simp add: pendingFetch_def)
    from pendingFetch_held [OF assms(1) this] assms(2) a show False by simp
  qed
  then show ?thesis
    by (auto simp add: pendingFetch_def clearTimeout_simps filter_empty_conv)
qed

lemma clear_render_none:
  assumes "timerInv w" and "instances w c = Some i"
  shows "pendingRender c (clearTimeout (renderTimeout i) w) = []"
proof -
  have "\<not> (Some (fst p) \<noteq> renderTimeout i \<and> \<not> isFetchTimer (snd p) \<and> timerTarget (snd p) = c)"
    if "p \<in> set (timers w)" for p
  proof
    assume a: "Some (fst p) \<noteq> renderTimeout i \<and> \<not> isFetchTimer (snd p) \<and> timerTarget (snd p) = c"
    with that have "p \<in> set (pendingRender c w)" by (simp add: pendingRender_def)
    from pendingRender_held [OF assms(1) this] assms(2) a show False by simp
  qed
  then show ?thesis
    by (auto simp add: pendingRender_def clearTimeout_simps filter_empty_conv)
qed

lemma pendingFetch_prims:
  "pendingFetch c (emit e w) = pendingFetch c w"
  "pendingFetch c (updInstance c' f w) = pendingFetch c w"
  "pendingFetch c (clearTimeout ho w) = filter (\<lambda>p. Some (fst p) \<noteq> ho) (pendingFetch c w)"
  by (auto simp add: pendingFetch_def prim_simps intro: filter_cong)

lemma render_inv:
  assumes "timerInv w"
  shows "timerInv (render c s now w)"
proof (cases "instances w c")
  case None
  then show ?thesis using assms by (simp add: render_noop)
next
  case (Some i)
  show ?thesis
  proof (cases "lastResponse i")
    case None
    with Some show ?thesis using assms by (simp add: render_noop)
  next
    case (Some data)
    let ?wc = "clearTimeout (renderTimeout i) w"
    have 1: "timerInv ?wc" using assms by (rule timerInv_clearTimeout)
    have 2: "instances ?wc c = Some i" using \<open>instances w c = Some i\<close> by (simp add: prim_simps)
    have 3: "pendingRender c ?wc = []" using assms \<open>instances w c = Some i\<close> by (rule clear_render_none)
    note r = render_simps [OF \<open>instances w c = Some i\<close> Some, of s now]
    show ?thesis
      by (rule timerInv_arm_render [OF 1 2 3]) (simp_all add: r prim_simps)
  qed
qed

lemma render_pendingFetch:
  assumes "pendingFetch c' w = []"
  shows "pendingFetch c' (render c s now w) = []"
proof (cases "instances w c")
  case None
  then show ?thesis using assms by (simp add: render_noop)
next
  case (Some i)
  show ?thesis
  proof (cases "lastResponse i")
    case None
    with Some show ?thesis using assms by (simp add: render_noop)
  next
    case (Some data)
    note r = render_simps [OF \<open>instances w c = Some i\<close> Some, of s now]
    show ?thesis
      using assms
      by (auto simp add: pendingFetch_def r filter_empty_conv isFetchTimer_def)
  qed
qed

lemma render_instances_dom:
  "instances w c' \<noteq> None \<Longrightarrow> instances (render c s now w) c' \<noteq> None"
  by (auto simp add: render_def Let_def split_def prim_simps split: option.splits)

lemma ready_render: "ready c' w \<Longrightarrow> ready c' (render c s now w)"
  by (simp add: ready_def render_inv render_pendingFetch render_instances_dom)

lemma ready_emit: "ready c w \<Longrightarrow> ready c (emit e w)"
  by (simp add: ready_def timerInv_emit pendingFetch_prims prim_simps)

lemma ready_updInstance:
  assumes "ready c w" and "\<And>i. slots (f i) = slots i"
  shows "ready c (updInstance c' f w)"
  using assms(1)
  by (auto simp add: ready_def timerInv_updInstance [OF _ assms(2)] pendingFetch_prims prim_simps
        split: option.splits)

lemma ready_cleared:
  assumes "timerInv w" and "instances w c = Some i"
  shows "ready c (clearTimeout (renderTimeout i) (clearTimeout (fetchTimeout i) w))"
proof -
  have "pendingFetch c (clearTimeout (renderTimeout i) (clearTimeout (fetchTimeout i) w)) = []"
    unfolding pendingFetch_prims(3) [of c "renderTimeout i"] clear_fetch_none [OF assms] by simp
  then show ?thesis
    using assms by (simp add: ready_def timerInv_clearTimeout prim_simps)
qed

lemma onFetchError_inv:
  assumes "ready c w"
  shows "timerInv (onFetchError c s w)"
proof -
  from assms obtain i where i: "instances w c = Some i" and t: "timerInv w" and p: "pendingFetch c w = []"
    by (auto simp add: ready_def)
  show ?thesis
    by (rule timerInv_arm_fetch [OF t i p]) (simp_all add: onFetchError_simps i)
qed

lemma renderAndSchedule_inv:
  assumes "ready c w"
  shows "timerInv (renderAndSchedule c s ms data env w)"
proof -
  let ?w1 = "render c (asPayload ms) (renderNow env) w"
  from ready_render [OF assms, of c "asPayload ms" "renderNow env"]
  obtain i where i: "instances ?w1 c = Some i" and t: "timerInv ?w1" and p: "pendingFetch c ?w1 = []"
    by (auto simp add: ready_def)
  show ?thesis
    by (rule timerInv_arm_fetch [OF t i p])
       (simp_all add: renderAndSchedule_def Let_def split_def prim_simps i)
qed

lemma slots_simps:
  "slots (i\<lparr>lastResponse := x\<rparr>) = slots i"
  "slots (i\<lparr>lastEntries := y\<rparr>) = slots i"
  "slots (i\<lparr>keyDownTime := z\<rparr>) = slots i"
  "slots (i\<lparr>displayMode := m\<rparr>) = slots i"
  by (simp_all add: slots_def)

lemma fetchAndRender_inv:
  assumes "timerInv w"
  shows "timerInv (fetchAndRender c s force env w)"
proof (cases "instances w c")
  case None
  then show ?thesis using assms by (simp add: fetchAndRender_def fetchAndRenderStart_def fetchAndRenderResume_def)
next
  case (Some i)
  let ?w1 = "clearTimeout (renderTimeout i) (clearTimeout (fetchTimeout i) w)"
  have r1: "ready c ?w1" using assms Some by (rule ready_cleared)
  then have t1: "timerInv ?w1" by (simp add: ready_def)
  note rs = r1 ready_emit ready_updInstance slots_simps onFetchError_inv renderAndSchedule_inv
  show ?thesis
    using Some t1
    by (simp add: fetchAndRender_def fetchAndRenderStart_def fetchAndRenderResume_def Let_def rs split: option.split FetchOutcome.split)
qed

lemma heldBy_target_live:
  "heldBy w p \<Longrightarrow> instances w (timerTarget (snd p)) \<noteq> None"
  by (auto simp add: heldBy_def split: option.splits)

lemma onWillAppear_inv:
  assumes "timerInv w" and "instances w c = None"
  shows "timerInv (onWillAppear c s env w)"
proof -
  let ?w0 = "w\<lparr>instances := (instances w)(c \<mapsto> freshInstance)\<rparr>"
  have "heldBy ?w0 p" if "p \<in> set (timers w)" for p
  proof -
    from assms(1) that have h: "heldBy w p" by (simp add: timerInv_iff)
    from heldBy_target_live [OF h] assms(2) have "timerTarget (snd p) \<noteq> c" by auto
    with h show ?thesis by (simp add: heldBy_def)
  qed
  with assms(1) have "timerInv ?w0" by (simp add: timerInv_iff)
  then show ?thesis unfolding onWillAppear_def by (rule fetchAndRender_inv)
qed

lemma onWillDisappear_inv:
  assumes "timerInv w"
  shows "timerInv (onWillDisappear c w)"
proof (cases "instances w c")
  case None
  then show ?thesis using assms by (simp add: onWillDisappear_def)
next
  case (Some i)
  let ?w1 = "clearTimeout (renderTimeout i) (clearTimeout (fetchTimeout i) w)"
  let ?w2 = "?w1\<lparr>instances := (instances ?w1)(c := None)\<rparr>"
  have t1: "timerInv ?w1" using assms by (intro timerInv_clearTimeout)
  have "heldBy ?w2 p" if "p \<in> set (timers ?w1)" for p
  proof -
    from t1 that have h: "heldBy ?w1 p" by (simp add: timerInv_iff)
    from that have n: "Some (fst p) \<noteq> fetchTimeout i" "Some (fst p) \<noteq> renderTimeout i"
      by (simp_all add: prim_simps)
    have "timerTarget (snd p) \<noteq> c"
    proof
      assume "timerTarget (snd p) = c"
      with h Some n show False by (auto simp add: heldBy_def prim_simps split: if_splits)
    qed
    with h show ?thesis by (simp add: heldBy_def)
  qed
  with t1 have "timerInv ?w2" by (simp add: timerInv_iff)
  with Some show ?thesis by (simp add: onWillDisappear_def Let_def)
qed

lemma onKeyDown_inv: "timerInv w \<Longrightarrow> timerInv (onKeyDown c now w)"
  unfolding onKeyDown_def by (rule timerInv_updInstance) (simp_all add: slots_simps)

lemma onKeyUp_inv:
  assumes "timerInv w"
  shows "timerInv (onKeyUp c s now env w)"
  using assms
  by (simp add: onKeyUp_def Let_def fetchAndRender_inv render_inv timerInv_updInstance slots_simps
        split: option.split)

lemma fireTimer_inv:
  assumes "timerInv w"
  shows "timerInv (fireTimer h env w)"
proof (cases "map_of (timers w) h")
  case None
  then show ?thesis using assms by (simp add: fireTimer_def)
next
  case (Some t)
  let ?w1 = "w\<lparr>timers := filter (\<lambda>p. fst p \<noteq> h) (timers w)\<rparr>"
  have "timerInv ?w1"
    using assms by (rule timerInv_shrink [where P = "\<lambda>p. fst p \<noteq> h"]) (simp_all add: sameSlots_refl)
  then show ?thesis
    using Some by (simp add: fireTimer_def Let_def fetchAndRender_inv render_inv split: Callback.split)
qed

lemma step_inv:
  assumes "timerInv w" and "appearsFresh e w"
  shows "timerInv (step e w)"
  using assms
  by (cases e)
     (simp_all add: appearsFresh_def onWillAppear_inv onWillDisappear_inv onKeyDown_inv onKeyUp_inv
        onDidReceiveSettings_def fetchAndRender_inv fireTimer_inv)

lemma run_inv:
  "timerInv w \<Longrightarrow> lifecycle es w \<Longrightarrow> timerInv (run es w)"
  by (induction es arbitrary: w) (simp_all add: step_inv)

lemma untouched_refl: "untouched c w w"
  by (simp add: untouched_def)

lemma untouched_emit:
  "untouched c w w' \<Longrightarrow> effectCtx e \<noteq> c \<Longrightarrow> untouched c w (emit e w')"
  by (simp add: untouched_def effectsFor_def prim_simps)

lemma untouched_clearTimeout:
  "untouched c w w' \<Longrightarrow> untouched c w (clearTimeout ho w')"
  by (simp add: untouched_def effectsFor_def prim_simps)

lemma untouched_updInstance:
  "untouched c w w' \<Longrightarrow> c' \<noteq> c \<Longrightarrow> untouched c w (updInstance c' f w')"
  by (simp add: untouched_def effectsFor_def prim_simps split: option.split)

lemma untouched_setTimeout:
  "untouched c w w' \<Longrightarrow> timerTarget \<lparr>tm_callback = cb, tm_delay = ms\<rparr> \<noteq> c
     \<Longrightarrow> untouched c w (snd (setTimeout cb ms w'))"
  by (auto simp add: untouched_def effectsFor_def prim_simps)

lemma target_simps:
  "timerTarget \<lparr>tm_callback = CallFetchAndRender c s, tm_delay = ms\<rparr> = c"
  "timerTarget \<lparr>tm_callback = CallRender c s, tm_delay = ms\<rparr> = c"
  by (simp_all add: timerTarget_def)

lemma effectCtx_simps:
  "effectCtx (HttpGet c u ep sec) = c" "effectCtx (SetImage c img) = c" "effectCtx (ShowAlert c) = c"
  by (simp_all add: effectCtx_def)

lemmas untouched_rules =
  untouched_emit untouched_clearTimeout untouched_updInstance untouched_setTimeout
  target_simps effectCtx_simps

lemma untouched_render:
  assumes "untouched c w w'" and "c' \<noteq> c"
  shows "untouched c w (render c' s now w')"
  using assms
  by (simp add: render_def Let_def split_def untouched_rules split: option.split)

lemma untouched_onFetchError:
  assumes "untouched c w w'" and "c' \<noteq> c"
  shows "untouched c w (onFetchError c' s w')"
  using assms
  by (simp add: onFetchError_def Let_def split_def untouched_rules)

lemma untouched_renderAndSchedule:
  assumes "untouched c w w'" and "c' \<noteq> c"
  shows "untouched c w (renderAndSchedule c' s ms data env w')"
  using assms
  by (simp add: renderAndSchedule_def Let_def split_def untouched_rules untouched_render)

lemma untouched_fetchAndRender:
  assumes "untouched c w w'" and "c' \<noteq> c"
  shows "untouched c w (fetchAndRender c' s force env w')"
  using assms
  by (simp add: fetchAndRender_def fetchAndRenderStart_def fetchAndRenderResume_def Let_def untouched_rules untouched_onFetchError
        untouched_renderAndSchedule split: option.split FetchOutcome.split)

lemma untouched_instances_upd:
  "c' \<noteq> c \<Longrightarrow> untouched c w (w\<lparr>instances := (instances w)(c' := x)\<rparr>)"
  by (simp add: untouched_def effectsFor_def)

lemma untouched_timers_filter:
  "untouched c w (w\<lparr>timers := filter P (timers w)\<rparr>)"
  by (simp add: untouched_def effectsFor_def)

lemma untouched_trans:
  "untouched c w w' \<Longrightarrow> untouched c w' w'' \<Longrightarrow> untouched c w w''"
  by (auto simp add: untouched_def)

lemma quiet_no_target:
  assumes "quiet c w" and "p \<in> set (timers w)"
  shows "timerTarget (snd p) \<noteq> c"
proof
  assume "timerTarget (snd p) = c"
  with assms(2) have "p \<in> set (pendingFetch c w) \<or> p \<in> set (pendingRender c w)"
    by (simp add: pendingFetch_def pendingRender_def)
  with assms(1) show False by (simp add: quiet_def)
qed

lemma step_untouched:
  assumes "quiet c w" and "\<not> isAppearOf c e"
  shows "untouched c w (step e w)"
proof -
  have n: "instances w c = None" using assms(1) by (simp add: quiet_def)
  show ?thesis
  proof (cases e)
    case (WillAppear c' s env)
    with assms(2) have ne: "c' \<noteq> c" by (simp add: isAppearOf_def)
    show ?thesis
      unfolding WillAppear step.simps onWillAppear_def
      by (rule untouched_fetchAndRender [OF _ ne]) (rule untouched_instances_upd [OF ne])
  next
    case (WillDisappear c')
    show ?thesis
    proof (cases "c' = c")
      case True
      with n show ?thesis by (simp add: WillDisappear onWillDisappear_def untouched_refl)
    next
      case False
      have "untouched c w (onWillDisappear c' w)"
      proof (cases "instances w c'")
        case None
        then show ?thesis by (simp add: onWillDisappear_def untouched_refl)
      next
        case (Some i)
        let ?w1 = "clearTimeout (renderTimeout i) (clearTimeout (fetchTimeout i) w)"
        have "untouched c w ?w1" by (intro untouched_clearTimeout untouched_refl)
        moreover have "untouched c ?w1 (?w1\<lparr>instances := (instances ?w1)(c' := None)\<rparr>)"
          by (rule untouched_instances_upd [OF False])
        ultimately show ?thesis
          using Some by (simp add: onWillDisappear_def Let_def) (rule untouched_trans)
      qed
      then show ?thesis by (simp add: WillDisappear)
    qed
  next
    case (KeyDown c' now)
    show ?thesis
    proof (cases "c' = c")
      case True
      with n show ?thesis by (simp add: KeyDown onKeyDown_def updInstance_def untouched_refl)
    next
      case False
      then show ?thesis by (simp add: KeyDown onKeyDown_def untouched_updInstance untouched_refl)
    qed
  next
    case (KeyUp c' s now env)
    show ?thesis
    proof (cases "c' = c")
      case True
      with n show ?thesis by (simp add: KeyUp onKeyUp_def untouched_refl)
    next
      case False
      then show ?thesis
        by (simp add: KeyUp onKeyUp_def Let_def untouched_refl untouched_updInstance
              untouched_fetchAndRender untouched_render split: option.split)
    qed
  next
    case (DidReceiveSettings c' s env)
    show ?thesis
    proof (cases "c' = c")
      case True
      with n show ?thesis
        by (simp add: DidReceiveSettings onDidReceiveSettings_def fetchAndRender_def fetchAndRenderStart_def fetchAndRenderResume_def untouched_refl)
    next
      case False
      then show ?thesis
        by (simp add: DidReceiveSettings onDidReceiveSettings_def untouched_fetchAndRender untouched_refl)
    qed
  next
    case (TimerFires h env)
    show ?thesis
    proof (cases "map_of (timers w) h")
      case None
      then show ?thesis by (simp add: TimerFires fireTimer_def untouched_refl)
    next
      case (Some t)
      then have "(h, t) \<in> set (timers w)" by (rule map_of_SomeD)
      from quiet_no_target [OF assms(1) this] have ne: "timerTarget t \<noteq> c" by simp
      let ?w1 = "w\<lparr>timers := filter (\<lambda>p. fst p \<noteq> h) (timers w)\<rparr>"
      have u: "untouched c w ?w1" by (rule untouched_timers_filter)
      show ?thesis
      proof (cases "tm_callback t")
        case (CallFetchAndRender c' s)
        with ne have "c' \<noteq> c" by (simp add: timerTarget_def)
        from untouched_fetchAndRender [OF u this] Some CallFetchAndRender
        show ?thesis by (simp add: TimerFires fireTimer_def Let_def)
      next
        case (CallRender c' s)
        with ne have "c' \<noteq> c" by (simp add: timerTarget_def)
        from untouched_render [OF u this] Some CallRender
        show ?thesis by (simp add: TimerFires fireTimer_def Let_def)
      qed
    qed
  qed
qed

lemma quiet_untouched:
  assumes "quiet c w" and "untouched c w w'"
  shows "quiet c w'"
proof -
  have "timerTarget (snd p) \<noteq> c" if "p \<in> set (timers w')" for p
  proof
    assume "timerTarget (snd p) = c"
    with assms(2) that have "p \<in> set (timers w)" by (simp add: untouched_def)
    from quiet_no_target [OF assms(1) this] \<open>timerTarget (snd p) = c\<close> show False by simp
  qed
  then have "pendingFetch c w' = []" "pendingRender c w' = []"
    by (auto simp add: pendingFetch_def pendingRender_def filter_empty_conv)
  with assms show ?thesis by (simp add: quiet_def untouched_def)
qed

lemma run_quiet:
  assumes "quiet c w" and "\<forall>e \<in> set es. \<not> isAppearOf c e"
  shows "quiet c (run es w) \<and> effectsFor c (run es w) = effectsFor c w"
  using assms
proof (induction es arbitrary: w)
  case Nil
  then show ?case by simp
next
  case (Cons e es)
  from Cons.prems have u: "untouched c w (step e w)" by (simp add: step_untouched)
  with Cons.prems(1) have q: "quiet c (step e w)" by (rule quiet_untouched)
  from Cons.IH [OF q] Cons.prems(2) u show ?case by (simp add: untouched_def)
qed

lemma disappear_quiet:
  assumes "timerInv w"
  shows "quiet c (onWillDisappear c w) \<and> effectsFor c (onWillDisappear c w) = effectsFor c w"
proof -
  have i: "instances (onWillDisappear c w) c = None"
    by (simp add: onWillDisappear_def Let_def prim_simps split: option.split)
  have t: "timerInv (onWillDisappear c w)" using assms by (rule onWillDisappear_inv)
  have f: "pendingFetch c (onWillDisappear c w) = []"
  proof (cases "pendingFetch c (onWillDisappear c w)")
    case (Cons p ps)
    then have "p \<in> set (pendingFetch c (onWillDisappear c w))" by simp
    from pendingFetch_held [OF t this] i show ?thesis by simp
  qed simp
  have r: "pendingRender c (onWillDisappear c w) = []"
  proof (cases "pendingRender c (onWillDisappear c w)")
    case (Cons p ps)
    then have "p \<in> set (pendingRender c (onWillDisappear c w))" by simp
    from pendingRender_held [OF t this] i show ?thesis by simp
  qed simp
  have e: "effects (onWillDisappear c w) = effects w"
    by (simp add: onWillDisappear_def Let_def prim_simps split: option.split)
  show ?thesis using i f r e by (simp add: quiet_def effectsFor_def)
qed

lemmas handler_defs =
  onWillAppear_def fetchAndRender_def fetchAndRenderStart_def fetchAndRenderResume_def renderAndSchedule_def render_def onFetchError_def
  setTimeout_def clearTimeout_def updInstance_def emit_def freshInstance_def
  mergeSettings_def urlPayload_def emptyPayload_def orDefault_def asPayload_def secretOf_def
  envFresh_def envOk_def ok_def initialWorld_def Let_def split_def

text \<open>
  An appearance for an identity that is live replaces the instance without clearing its
  timers: after two appearances in a row two fetch timers and two render timers are
  pending for the same identity.
\<close>

lemma repeated_appearance_leaves_timers:
  "length (pendingFetch ''key1''
             (run [WillAppear ''key1'' urlPayload envFresh, WillAppear ''key1'' urlPayload envFresh]
                initialWorld)) = 2
   \<and> length (pendingRender ''key1''
             (run [WillAppear ''key1'' urlPayload envFresh, WillAppear ''key1'' urlPayload envFresh]
                initialWorld)) = 2"
  by (simp add: handler_defs pendingFetch_def pendingRender_def isFetchTimer_def timerTarget_def)

text \<open>
  Handlers that run one after another, each to completion. The timer invariant holds
  initially, and every such event preserves it except an appearance that is not fresh;
  under it each identity has at most one pending fetch timer and at most one pending
  render timer. A disappearance from a state with the invariant removes the instance and
  leaves no pending timer for its identity, and whatever events follow, short of a new
  appearance of that identity, add no request, image or alert for it and no timer.
\<close>

lemma sequential_timer_discipline:
  "timerInv initialWorld
   \<and> (timerInv w \<and> appearsFresh e w \<longrightarrow> timerInv (step e w))
   \<and> (timerInv w \<longrightarrow> length (pendingFetch c w) \<le> 1 \<and> length (pendingRender c w) \<le> 1)
   \<and> (lifecycle es initialWorld \<longrightarrow>
         length (pendingFetch c (run es initialWorld)) \<le> 1
         \<and> length (pendingRender c (run es initialWorld)) \<le> 1)
   \<and> (timerInv w \<and> (\<forall>e \<in> set es'. \<not> isAppearOf c e) \<longrightarrow>
         instances (run es' (onWillDisappear c w)) c = None
         \<and> pendingFetch c (run es' (onWillDisappear c w)) = []
         \<and> pendingRender c (run es' (onWillDisappear c w)) = []
         \<and> effectsFor c (run es' (onWillDisappear c w)) = effectsFor c w)"
proof -
  have 4: "length (pendingFetch c (run es initialWorld)) \<le> 1
           \<and> length (pendingRender c (run es initialWorld)) \<le> 1" if "lifecycle es initialWorld"
    using run_inv [OF timerInv_initial that] by (rule timerInv_at_most_one)
  have 5: "instances (run es' (onWillDisappear c w)) c = None
         \<and> pendingFetch c (run es' (onWillDisappear c w)) = []
         \<and> pendingRender c (run es' (onWillDisappear c w)) = []
         \<and> effectsFor c (run es' (onWillDisappear c w)) = effectsFor c w"
    if "timerInv w" "\<forall>e \<in> set es'. \<not> isAppearOf c e"
  proof -
    from disappear_quiet [OF that(1), of c]
    have q: "quiet c (onWillDisappear c w)" and e: "effectsFor c (onWillDisappear c w) = effectsFor c w"
      by simp_all
    from run_quiet [OF q that(2)] e show ?thesis by (simp add: quiet_def)
  qed
  show ?thesis
    using timerInv_initial step_inv [of w e] timerInv_at_most_one [of w c] 4 5 by blast
qed

text \<open>
  The key with both timers pending: its fetch timer fires; and it disappears, after
  which a stale timer, a key release and a settings change do nothing for it.
\<close>

lemma sequential_timer_discipline_example:
  "timerInv liveWorld
   \<and> appearsFresh (TimerFires 1 env500) liveWorld
   \<and> timerInv (step (TimerFires 1 env500) liveWorld)
   \<and> length (pendingFetch ''key1'' liveWorld) = 1
   \<and> length (pendingRender ''key1'' liveWorld) = 1
   \<and> lifecycle [WillAppear ''key1'' urlPayload env500] initialWorld
   \<and> length (pendingFetch ''key1'' (run [WillAppear ''key1'' urlPayload env500] initialWorld)) \<le> 1
   \<and> list_all (\<lambda>e. \<not> isAppearOf ''key1'' e)
        [TimerFires 1 env500, KeyUp ''key1'' urlPayload 5 env500,
         DidReceiveSettings ''key1'' urlPayload env500]
   \<and> pendingFetch ''key1''
        (run [TimerFires 1 env500, KeyUp ''key1'' urlPayload 5 env500,
              DidReceiveSettings ''key1'' urlPayload env500]
           (onWillDisappear ''key1'' liveWorld)) = []
   \<and> pendingRender ''key1''
        (run [TimerFires 1 env500, KeyUp ''key1'' urlPayload 5 env500,
              DidReceiveSettings ''key1'' urlPayload env500]
           (onWillDisappear ''key1'' liveWorld)) = []
   \<and> effectsFor ''key1''
        (run [TimerFires 1 env500, KeyUp ''key1'' urlPayload 5 env500,
              DidReceiveSettings ''key1'' urlPayload env500]
           (onWillDisappear ''key1'' liveWorld)) = []"
proof -
  let ?es' = "[TimerFires 1 env500, KeyUp ''key1'' urlPayload 5 env500,
               DidReceiveSettings ''key1'' urlPayload env500]"
  have t: "timerInv liveWorld"
    by (simp add: timerInv_def liveWorld_def liveInstance_def heldBy_def timerTarget_def isFetchTimer_def)
  have a: "appearsFresh (TimerFires 1 env500) liveWorld"
    by (simp add: appearsFresh_def)
  have pf: "length (pendingFetch ''key1'' liveWorld) = 1"
    by (simp add: pendingFetch_def liveWorld_def isFetchTimer_def timerTarget_def)
  have pr: "length (pendingRender ''key1'' liveWorld) = 1"
    by (simp add: pendingRender_def liveWorld_def isFetchTimer_def timerTarget_def)
  have l: "lifecycle [WillAppear ''key1'' urlPayload env500] initialWorld"
    by (simp add: appearsFresh_def initialWorld_def)
  have n: "list_all (\<lambda>e. \<not> isAppearOf ''key1'' e) ?es'"
    by (simp add: isAppearOf_def)
  then have n': "\<forall>e \<in> set ?es'. \<not> isAppearOf ''key1'' e"
    by (simp only: list_all_iff)
  have e: "effectsFor ''key1'' liveWorld = []"
    by (simp add: effectsFor_def liveWorld_def)
  note th = sequential_timer_discipline [of liveWorld "TimerFires 1 env500" "''key1''"
              "[WillAppear ''key1'' urlPayload env500]" ?es']
  from th t a have 1: "timerInv (step (TimerFires 1 env500) liveWorld)" by blast
  from th l have 2: "length (pendingFetch ''key1'' (run [WillAppear ''key1'' urlPayload env500] initialWorld)) \<le> 1"
    by blast
  from th t n' have 3: "pendingFetch ''key1'' (run ?es' (onWillDisappear ''key1'' liveWorld)) = []"
    and 4: "pendingRender ''key1'' (run ?es' (onWillDisappear ''key1'' liveWorld)) = []"
    and 5: "effectsFor ''key1'' (run ?es' (onWillDisappear ''key1'' liveWorld)) = effectsFor ''key1'' liveWorld"
    by blast+
  show ?thesis using t a pf pr l n 1 2 3 4 5 [unfolded e] by blast
qed

subsection \<open>Overlapping calls\<close>

text \<open>
  The part of \<open>fetchAndRender\<close> before its first \<^verbatim>\<open>await\<close> clears both timers and issues
  the request; the part after it, when both requests succeed, clears the render timer the
  instance holds, arms a render timer and a fetch timer, and stores their handles. It does
  not clear the fetch timer the instance holds at that moment.
\<close>

lemma start_awaiting:
  assumes "instances w c = Some inst"
    and "nightscoutUrl (mergeSettings s) = Some url" and "url \<noteq> []" and "urlParses env"
  shows "fetchAndRenderStart c s env w =
           AwaitingPrimary url
             (emit (HttpGet c url PropertiesEndpoint (secretOf (mergeSettings s))) (cleared inst w))"
  using assms by (simp add: fetchAndRenderStart_def cleared_def Let_def)

lemma resume_stored:
  assumes "instances w c = Some i" and "storedOk env data es"
  shows "timers (fetchAndRenderResume c s url env w) =
           filter (\<lambda>p. Some (fst p) \<noteq> renderTimeout i) (timers w)
             @ [(nextHandle w,
                 \<lparr>tm_callback = CallRender c (asPayload (mergeSettings s)), tm_delay = 60000\<rparr>),
                (Suc (nextHandle w),
                 \<lparr>tm_callback = CallFetchAndRender c s,
                   tm_delay = nextSleepMs data (scheduleNow env)\<rparr>)]"
    and "instances (fetchAndRenderResume c s url env w) =
           (instances w)(c \<mapsto> i\<lparr>lastResponse := Some data, lastEntries := Some es,
                                   renderTimeout := Some (nextHandle w),
                                   fetchTimeout := Some (Suc (nextHandle w))\<rparr>)"
    and "nextHandle (fetchAndRenderResume c s url env w) = Suc (Suc (nextHandle w))"
proof -
  obtain st hst where p: "primary env = Resolved st (Some data)" "ok st"
    and h: "history env = Resolved hst (Some es)" "ok hst"
    using assms(2) by (auto simp add: storedOk_def split: FetchOutcome.splits)
  define n where "n = \<lceil>(graphHours (mergeSettings s) * 60) / 5\<rceil>"
  define w4 where "w4 = updInstance c (\<lambda>i. i\<lparr>lastEntries := Some es\<rparr>)
               (emit (HttpGet c url (EntriesEndpoint n) (secretOf (mergeSettings s)))
                  (updInstance c (\<lambda>i. i\<lparr>lastResponse := Some data\<rparr>) w))"
  have eq: "fetchAndRenderResume c s url env w = renderAndSchedule c s (mergeSettings s) data env w4"
    unfolding w4_def n_def using p h by (simp add: fetchAndRenderResume_def Let_def)
  have i4: "instances w4 c = Some (i\<lparr>lastResponse := Some data, lastEntries := Some es\<rparr>)"
    using assms(1) by (simp add: w4_def prim_simps)
  have l4: "lastResponse (i\<lparr>lastResponse := Some data, lastEntries := Some es\<rparr>) = Some data"
    by simp
  have m4: "instances w4 = (instances w)(c \<mapsto> i\<lparr>lastResponse := Some data, lastEntries := Some es\<rparr>)"
    using assms(1) by (simp add: w4_def prim_simps)
  have t4: "timers w4 = timers w" and n4: "nextHandle w4 = nextHandle w"
    by (simp_all add: w4_def prim_simps)
  note r = renderAndSchedule_simps [OF i4 l4, of s "mergeSettings s" data env]
  show "timers (fetchAndRenderResume c s url env w) =
           filter (\<lambda>p. Some (fst p) \<noteq> renderTimeout i) (timers w)
             @ [(nextHandle w,
                 \<lparr>tm_callback = CallRender c (asPayload (mergeSettings s)), tm_delay = 60000\<rparr>),
                (Suc (nextHandle w),
                 \<lparr>tm_callback = CallFetchAndRender c s,
                   tm_delay = nextSleepMs data (scheduleNow env)\<rparr>)]"
    unfolding eq r(2) t4 n4 by simp
  show "instances (fetchAndRenderResume c s url env w) =
           (instances w)(c \<mapsto> i\<lparr>lastResponse := Some data, lastEntries := Some es,
                                   renderTimeout := Some (nextHandle w),
                                   fetchTimeout := Some (Suc (nextHandle w))\<rparr>)"
    unfolding eq r(3) m4 n4 by simp
  show "nextHandle (fetchAndRenderResume c s url env w) = Suc (Suc (nextHandle w))"
    unfolding eq r(4) n4 by simp
qed

text \<open>
  Two overlapping calls for a live identity, both successful: whatever was pending, the
  fetch timer of the first call stays pending beside the render timer and the fetch timer
  of the second, and the instance holds the fetch timer of the second only.
\<close>

lemma overlapped_timers:
  assumes "instances w c = Some inst"
    and "nightscoutUrl (mergeSettings sA) = Some urlA" and "urlA \<noteq> []"
    and "nightscoutUrl (mergeSettings sB) = Some urlB" and "urlB \<noteq> []"
    and "storedOk envA dataA esA" and "storedOk envB dataB esB"
  shows "timers (overlapped c sA envA sB envB w) =
           filter (\<lambda>p. fst p \<noteq> nextHandle w) (timers (cleared inst w))
             @ [(Suc (nextHandle w),
                 \<lparr>tm_callback = CallFetchAndRender c sA,
                   tm_delay = nextSleepMs dataA (scheduleNow envA)\<rparr>),
                (Suc (Suc (nextHandle w)),
                 \<lparr>tm_callback = CallRender c (asPayload (mergeSettings sB)), tm_delay = 60000\<rparr>),
                (Suc (Suc (Suc (nextHandle w))),
                 \<lparr>tm_callback = CallFetchAndRender c sB,
                   tm_delay = nextSleepMs dataB (scheduleNow envB)\<rparr>)]"
    and "map_option fetchTimeout (instances (overlapped c sA envA sB envB w) c)
           = Some (Some (Suc (Suc (Suc (nextHandle w)))))"
proof -
  have pa: "urlParses envA" and pb: "urlParses envB"
    using assms(6,7) by (simp_all add: storedOk_def)
  define wA where "wA = emit (HttpGet c urlA PropertiesEndpoint (secretOf (mergeSettings sA))) (cleared inst w)"
  define wB where "wB = emit (HttpGet c urlB PropertiesEndpoint (secretOf (mergeSettings sB))) (cleared inst wA)"
  define wC where "wC = fetchAndRenderResume c sA urlA envA wB"
  define wD where "wD = fetchAndRenderResume c sB urlB envB wC"
  have sA: "fetchAndRenderStart c sA envA w = AwaitingPrimary urlA wA"
    unfolding wA_def by (rule start_awaiting [OF assms(1) assms(2) assms(3) pa])
  have iA: "instances wA c = Some inst"
    using assms(1) by (simp add: wA_def prim_simps cleared_simps)
  have sB: "fetchAndRenderStart c sB envB wA = AwaitingPrimary urlB wB"
    unfolding wB_def by (rule start_awaiting [OF iA assms(4) assms(5) pb])
  have o: "overlapped c sA envA sB envB w = wD"
    by (simp add: overlapped_def sA sB wC_def wD_def)
  have tB: "timers wB = timers (cleared inst w)"
    by (simp add: wB_def wA_def prim_simps cleared_simps)
  have iB: "instances wB c = Some inst" and mB: "instances wB = instances w"
    and nB: "nextHandle wB = nextHandle w"
    using assms(1) by (simp_all add: wB_def wA_def prim_simps cleared_simps)
  note rC = resume_stored [OF iB assms(6), of sA urlA, folded wC_def]
  have fB: "filter (\<lambda>p. Some (fst p) \<noteq> renderTimeout inst) (timers wB) = timers (cleared inst w)"
    unfolding tB by (simp add: cleared_simps)
  define iC where "iC = inst\<lparr>lastResponse := Some dataA, lastEntries := Some esA,
                                   renderTimeout := Some (nextHandle w),
                                   fetchTimeout := Some (Suc (nextHandle w))\<rparr>"
  have iCc: "instances wC c = Some iC"
    unfolding rC(2) iC_def nB by simp
  have rtC: "renderTimeout iC = Some (nextHandle w)" by (simp add: iC_def)
  note rD = resume_stored [OF iCc assms(7), of sB urlB, folded wD_def]
  show "timers (overlapped c sA envA sB envB w) =
           filter (\<lambda>p. fst p \<noteq> nextHandle w) (timers (cleared inst w))
             @ [(Suc (nextHandle w),
                 \<lparr>tm_callback = CallFetchAndRender c sA,
                   tm_delay = nextSleepMs dataA (scheduleNow envA)\<rparr>),
                (Suc (Suc (nextHandle w)),
                 \<lparr>tm_callback = CallRender c (asPayload (mergeSettings sB)), tm_delay = 60000\<rparr>),
                (Suc (Suc (Suc (nextHandle w))),
                 \<lparr>tm_callback = CallFetchAndRender c sB,
                   tm_delay = nextSleepMs dataB (scheduleNow envB)\<rparr>)]"
    unfolding o rD(1) rtC rC(1) rC(3) fB nB by simp
  show "map_option fetchTimeout (instances (overlapped c sA envA sB envB w) c)
           = Some (Some (Suc (Suc (Suc (nextHandle w)))))"
    unfolding o rD(2) rC(3) nB by simp
qed

text \<open>
  Claim C8 fails on the code. A key is live with one fetch timer (handle 1) and one render
  timer (handle 0) pending, and the timer invariant holds. Two settings events arrive for
  it, the second while the request of the first is in flight (the first call is suspended
  at line 211): each call of \<open>fetchAndRender\<close> clears the timers at its start (lines 183 and
  184), before the other has armed one, and each arms a fetch timer when it is resumed
  (line 247) without clearing again. Two fetch timers, with handles 3 and 5, are then
  pending for the one identity, the instance holds only the second, and the invariant is
  broken. Handled one after the other, the same two events leave at most one fetch timer.
\<close>

theorem overlapping_fetches_leave_two_timers:
  "timerInv liveWorld
   \<and> map fst (pendingFetch ''key1'' liveWorld) = [1]
   \<and> map fst (pendingRender ''key1'' liveWorld) = [0]
   \<and> isSuspended (fetchAndRenderStart ''key1'' urlPayload envFresh liveWorld)
   \<and> map fst (pendingFetch ''key1''
                 (overlapped ''key1'' urlPayload envFresh urlPayload envFresh liveWorld)) = [3, 5]
   \<and> map fst (pendingRender ''key1''
                 (overlapped ''key1'' urlPayload envFresh urlPayload envFresh liveWorld)) = [4]
   \<and> map_option fetchTimeout
         (instances (overlapped ''key1'' urlPayload envFresh urlPayload envFresh liveWorld) ''key1'')
       = Some (Some 5)
   \<and> \<not> timerInv (overlapped ''key1'' urlPayload envFresh urlPayload envFresh liveWorld)
   \<and> length (pendingFetch ''key1''
                 (run [DidReceiveSettings ''key1'' urlPayload envFresh,
                       DidReceiveSettings ''key1'' urlPayload envFresh] liveWorld)) \<le> 1"
proof -
  let ?o = "overlapped ''key1'' urlPayload envFresh urlPayload envFresh liveWorld"
  let ?es = "[DidReceiveSettings ''key1'' urlPayload envFresh,
              DidReceiveSettings ''key1'' urlPayload envFresh]"
  have 1: "timerInv liveWorld"
    by (simp add: timerInv_def liveWorld_def liveInstance_def heldBy_def timerTarget_def isFetchTimer_def)
  have 2: "map fst (pendingFetch ''key1'' liveWorld) = [1]"
    by (simp add: pendingFetch_def liveWorld_def isFetchTimer_def timerTarget_def)
  have r0: "map fst (pendingRender ''key1'' liveWorld) = [0]"
    by (simp add: pendingRender_def liveWorld_def isFetchTimer_def timerTarget_def)
  have i: "instances liveWorld ''key1'' = Some liveInstance"
    by (simp add: liveWorld_def)
  have u: "nightscoutUrl (mergeSettings urlPayload) = Some ''https://ns.example''"
    by (simp add: mergeSettings_def urlPayload_def emptyPayload_def)
  have ne: "''https://ns.example'' \<noteq> []" by simp
  have s: "storedOk envFresh (readingOnly 100) [sample 100 0]"
    by (simp add: storedOk_def envFresh_def envOk_def ok_def)
  have p: "urlParses envFresh" by (simp add: envFresh_def envOk_def)
  have 3: "isSuspended (fetchAndRenderStart ''key1'' urlPayload envFresh liveWorld)"
    unfolding start_awaiting [OF i u ne p] by (simp add: isSuspended_def)
  have c: "timers (cleared liveInstance liveWorld) = []"
    by (simp add: cleared_simps liveWorld_def liveInstance_def)
  have n: "nextHandle liveWorld = 2" by (simp add: liveWorld_def)
  note ot = overlapped_timers [OF i u ne u ne s s]
  have t: "timers ?o =
            [(3, \<lparr>tm_callback = CallFetchAndRender ''key1'' urlPayload,
                  tm_delay = nextSleepMs (readingOnly 100) (scheduleNow envFresh)\<rparr>),
             (4, \<lparr>tm_callback = CallRender ''key1'' (asPayload (mergeSettings urlPayload)),
                  tm_delay = 60000\<rparr>),
             (5, \<lparr>tm_callback = CallFetchAndRender ''key1'' urlPayload,
                  tm_delay = nextSleepMs (readingOnly 100) (scheduleNow envFresh)\<rparr>)]"
    unfolding ot(1) c n by simp
  have f: "map_option fetchTimeout (instances ?o ''key1'') = Some (Some 5)"
    unfolding ot(2) n by simp
  have 4: "map fst (pendingFetch ''key1'' ?o) = [3, 5]"
    unfolding pendingFetch_def t by (simp add: isFetchTimer_def timerTarget_def)
  have 5: "map fst (pendingRender ''key1'' ?o) = [4]"
    unfolding pendingRender_def t by (simp add: isFetchTimer_def timerTarget_def)
  have 7: "\<not> timerInv ?o"
  proof
    assume "timerInv ?o"
    then have "length (pendingFetch ''key1'' ?o) \<le> 1"
      using timerInv_at_most_one by blast
    moreover have "length (pendingFetch ''key1'' ?o) = 2"
      using 4 by (metis length_map length_Cons list.size(3) One_nat_def Suc_1)
    ultimately show False by simp
  qed
  have l: "lifecycle ?es liveWorld" by (simp add: appearsFresh_def)
  have 8: "length (pendingFetch ''key1'' (run ?es liveWorld)) \<le> 1"
    using timerInv_at_most_one [OF run_inv [OF 1 l]] by blast
  show ?thesis using 1 2 r0 3 4 5 f 7 8 by blast
qed

end
